theory Spec2Isabelle
  imports Complex_Main "HOL-Library.Word"
begin

section \<open>auditok: low-level audio input and output (\<open>auditok/io.py\<close>)\<close>

text \<open>
  A shallow embedding of the module \<open>auditok/io.py\<close>. Python integers are \<^typ>\<open>int\<close>,
  byte strings are lists of 8-bit words, exceptions are values of the type \<open>error\<close>
  returned on the left of a sum, and objects are records that every method takes and
  returns. Floats are IEEE doubles: a finite one is the rational number it stands for, and
  every float operation rounds its exact result to the nearest double.
\<close>

subsection \<open>Bytes, exceptions and Python slicing\<close>

type_synonym byte = "8 word"
type_synonym bytes = "byte list"

text \<open>
  The exception classes the module raises. \<open>AudioIOError\<close> and its subclass
  \<open>AudioParameterError\<close> are the module's own; \<open>ValueError\<close>, \<open>IOError\<close>,
  \<open>ZeroDivisionError\<close>, \<open>IndexError\<close> and \<open>OverflowError\<close> are Python's built-in
  classes. Each carries its message where the source gives one.
\<close>

datatype error =
    AudioIOError string
  | AudioParameterError string
  | ValueError string
  | IOError string
  | ZeroDivisionError
  | IndexError
  | OverflowError

text \<open>
  \<open>isinstance(e, AudioParameterError)\<close>: the class has no subclass, and none of the
  built-in classes derives from it.
\<close>

fun isinstance_AudioParameterError :: "error \<Rightarrow> bool" where
  "isinstance_AudioParameterError (AudioParameterError m) = True"
| "isinstance_AudioParameterError e = False"

text \<open>
  \<open>xs[a:b]\<close>: a negative bound counts from the end, and both bounds are clipped to
  \<open>0 .. len(xs)\<close>.
\<close>

definition slice_bound :: "nat \<Rightarrow> int \<Rightarrow> nat" where
  "slice_bound n i = (if i < 0 then nat (max (i + int n) 0) else min (nat i) n)"

definition py_slice :: "'a list \<Rightarrow> int \<Rightarrow> int \<Rightarrow> 'a list" where
  "py_slice xs a b =
     (let lo = slice_bound (length xs) a; hi = slice_bound (length xs) b
      in take (hi - lo) (drop lo xs))"

subsection \<open>Floating-point numbers\<close>

text \<open>
  A Python float is an IEEE double: a finite one is a rational number, and every
  operation returns the double nearest to the exact result, a tie going to the even
  mantissa, or infinity when the result is too large. \<open>bit_length\<close> is
  \<open>int.bit_length\<close>; \<open>floor_log2 a\<close> is the exponent \<open>e\<close> with
  \<open>2 ^ e \<le> a < 2 ^ (e + 1)\<close> of a positive \<open>a\<close>; doubles with exponent \<open>e\<close> are
  \<open>2 ^ (e - 52)\<close> apart, and below \<open>2 ^ - 1022\<close> they keep that spacing.
\<close>

fun bit_length :: "nat \<Rightarrow> nat" where
  "bit_length n = (if n = 0 then 0 else Suc (bit_length (n div 2)))"

declare bit_length.simps [simp del]

definition pow2 :: "int \<Rightarrow> rat" where
  "pow2 k = (if 0 \<le> k then 2 ^ nat k else 1 / 2 ^ nat (- k))"

definition floor_log2 :: "rat \<Rightarrow> int" where
  "floor_log2 a =
     (if 1 \<le> a then int (bit_length (nat \<lfloor>a\<rfloor>)) - 1
      else - int (bit_length (nat (\<lceil>1 / a\<rceil> - 1))))"

definition round_half_even :: "rat \<Rightarrow> int" where
  "round_half_even x =
     (let f = \<lfloor>x\<rfloor>; d = x - of_int f
      in if d < 1 / 2 then f
         else if 1 / 2 < d then f + 1
         else if even f then f else f + 1)"

datatype pyfloat = Finite rat | Infinite

definition float_round :: "rat \<Rightarrow> pyfloat" where
  "float_round x =
     (if x = 0 then Finite 0
      else
        let a = \<bar>x\<bar>;
            e = max (floor_log2 a) (- 1022);
            ulp = pow2 (e - 52);
            r = of_int (round_half_even (a / ulp)) * ulp
        in if 2 ^ 1024 \<le> r then Infinite
           else Finite (if x < 0 then - r else r))"

text \<open>
  \<open>float(i)\<close>, also applied to an \<open>int\<close> operand of a float operation: it raises
  \<open>OverflowError\<close> when the integer is too large.
\<close>

definition float_of_int :: "int \<Rightarrow> error + rat" where
  "float_of_int i =
     (case float_round (of_int i) of
        Finite f \<Rightarrow> Inr f
      | Infinite \<Rightarrow> Inl OverflowError)"

text \<open>The product of two finite floats, and the quotient \<open>a / b\<close> of two finite floats.\<close>

definition float_mul :: "rat \<Rightarrow> rat \<Rightarrow> pyfloat" where
  "float_mul a b = float_round (a * b)"

definition float_truediv :: "rat \<Rightarrow> rat \<Rightarrow> error + pyfloat" where
  "float_truediv a b =
     (if b = 0 then Inl ZeroDivisionError else Inr (float_round (a / b)))"

text \<open>
  \<open>a / b\<close> on two \<open>int\<close>s: the float nearest to the exact quotient, or
  \<open>OverflowError\<close> when that is too large.
\<close>

definition int_truediv :: "int \<Rightarrow> int \<Rightarrow> error + rat" where
  "int_truediv a b =
     (if b = 0 then Inl ZeroDivisionError
      else (case float_round (of_int a / of_int b) of
              Finite q \<Rightarrow> Inr q
            | Infinite \<Rightarrow> Inl OverflowError))"

text \<open>
  \<open>int(x)\<close> on a float truncates towards zero, and raises \<open>OverflowError\<close> on
  infinity.
\<close>

definition py_int :: "rat \<Rightarrow> int" where
  "py_int x = (if 0 \<le> x then \<lfloor>x\<rfloor> else \<lceil>x\<rceil>)"

definition int_of_float :: "pyfloat \<Rightarrow> error + int" where
  "int_of_float x =
     (case x of Finite r \<Rightarrow> Inr (py_int r) | Infinite \<Rightarrow> Inl OverflowError)"

subsection \<open>\<open>check_audio_data\<close>\<close>

definition check_audio_data :: "bytes \<Rightarrow> int \<Rightarrow> int \<Rightarrow> error + unit" where
  "check_audio_data data sample_width channels =
     (let sample_size_bytes = sample_width * channels in
      if sample_size_bytes = 0 then Inl ZeroDivisionError
      else
        let nb_samples = int (length data) div sample_size_bytes in
        if nb_samples * sample_size_bytes \<noteq> int (length data)
        then Inl (AudioParameterError
          ''The length of audio data must be an integer multiple of `sample_width * channels`'')
        else Inr ())"

subsection \<open>\<open>AudioSource\<close> and \<open>BufferAudioSource\<close>\<close>

text \<open>
  The fields \<open>_sampling_rate\<close>, \<open>_sample_width\<close>, \<open>_channels\<close> of the base class
  \<open>AudioSource\<close>; the subclasses extend the record.
\<close>

record audio_source =
  sampling_rate :: int
  sample_width :: int
  channels :: int

record buffer_audio_source = audio_source +
  buffer :: bytes
  sample_size_all_channels :: int
  current_position_bytes :: int
  is_open :: bool

text \<open>\<open>AudioSource.__init__\<close>: the two checks that every source's constructor runs first.\<close>

definition AudioSource_init :: "int \<Rightarrow> int \<Rightarrow> int \<Rightarrow> error + audio_source" where
  "AudioSource_init sr sw ch =
     (if sw \<notin> {1, 2, 4}
      then Inl (AudioParameterError ''Sample width must be one of: 1, 2 or 4 (bytes)'')
      else if ch \<noteq> 1
      then Inl (AudioParameterError ''Only mono audio is currently supported'')
      else Inr \<lparr>sampling_rate = sr, sample_width = sw, channels = ch\<rparr>)"

definition BufferAudioSource_init ::
  "bytes \<Rightarrow> int \<Rightarrow> int \<Rightarrow> int \<Rightarrow> error + buffer_audio_source" where
  "BufferAudioSource_init data_buffer sr sw ch =
     (case AudioSource_init sr sw ch of
        Inl e \<Rightarrow> Inl e
      | Inr base \<Rightarrow>
          (case check_audio_data data_buffer sw ch of
             Inl e \<Rightarrow> Inl e
           | Inr _ \<Rightarrow>
               Inr \<lparr>sampling_rate = sr, sample_width = sw, channels = ch,
                    buffer = data_buffer,
                    sample_size_all_channels = sw * ch,
                    current_position_bytes = 0,
                    is_open = False\<rparr>))"

definition BufferAudioSource_open :: "buffer_audio_source \<Rightarrow> buffer_audio_source" where
  "BufferAudioSource_open s = s\<lparr>is_open := True\<rparr>"

text \<open>
  The methods that move the position return the source as it is after the call together
  with the exception raised, if any. \<open>set_position\<close> raises before it assigns.
\<close>

definition set_position ::
  "buffer_audio_source \<Rightarrow> int \<Rightarrow> buffer_audio_source \<times> error option" where
  "set_position s position =
     (if position < 0 then (s, Some (ValueError ''position must be >= 0''))
      else
        let position = position * sample_size_all_channels s in
        (s\<lparr>current_position_bytes :=
             (if position < int (length (buffer s)) then position
              else int (length (buffer s)))\<rparr>,
         None))"

definition rewind :: "buffer_audio_source \<Rightarrow> buffer_audio_source \<times> error option" where
  "rewind s = set_position s 0"

definition BufferAudioSource_close ::
  "buffer_audio_source \<Rightarrow> buffer_audio_source \<times> error option" where
  "BufferAudioSource_close s = rewind (s\<lparr>is_open := False\<rparr>)"

text \<open>
  \<open>read\<close> returns the data read (\<open>None\<close> is the end-marker) and the source after
  the call.
\<close>

definition BufferAudioSource_read ::
  "buffer_audio_source \<Rightarrow> int \<Rightarrow> error + (bytes option \<times> buffer_audio_source)" where
  "BufferAudioSource_read s sz =
     (if \<not> is_open s then Inl (AudioIOError ''Stream is not open'')
      else
        let bytes_to_read = sample_size_all_channels s * sz;
            data = py_slice (buffer s) (current_position_bytes s)
                     (current_position_bytes s + bytes_to_read)
        in if data \<noteq> []
           then Inr (Some data,
                  s\<lparr>current_position_bytes := current_position_bytes s + int (length data)\<rparr>)
           else Inr (None, s))"

definition get_data_buffer :: "buffer_audio_source \<Rightarrow> bytes" where
  "get_data_buffer s = buffer s"

definition set_data :: "buffer_audio_source \<Rightarrow> bytes \<Rightarrow> error + buffer_audio_source" where
  "set_data s data_buffer =
     (case check_audio_data data_buffer (sample_width s) (channels s) of
        Inl e \<Rightarrow> Inl e
      | Inr _ \<Rightarrow> Inr (s\<lparr>buffer := data_buffer, current_position_bytes := 0\<rparr>))"

definition append_data :: "buffer_audio_source \<Rightarrow> bytes \<Rightarrow> error + buffer_audio_source" where
  "append_data s data_buffer =
     (case check_audio_data data_buffer (sample_width s) (channels s) of
        Inl e \<Rightarrow> Inl e
      | Inr _ \<Rightarrow> Inr (s\<lparr>buffer := buffer s @ data_buffer\<rparr>))"

text \<open>
  \<open>get_position\<close> divides two \<open>int\<close>s with \<open>/\<close>, and \<open>get_time_position\<close>
  divides \<open>float(self._current_position_bytes)\<close> by an \<open>int\<close>, which is converted to
  a float first.
\<close>

definition get_position :: "buffer_audio_source \<Rightarrow> error + rat" where
  "get_position s = int_truediv (current_position_bytes s) (sample_size_all_channels s)"

definition get_time_position :: "buffer_audio_source \<Rightarrow> error + pyfloat" where
  "get_time_position s =
     (case float_of_int (current_position_bytes s) of
        Inl e \<Rightarrow> Inl e
      | Inr a \<Rightarrow>
          (case float_of_int (sample_size_all_channels s * sampling_rate s) of
             Inl e \<Rightarrow> Inl e
           | Inr b \<Rightarrow> float_truediv a b))"

text \<open>
  \<open>set_time_position\<close> takes the time as a finite float. The product
  \<open>self.sampling_rate * time_position\<close> converts the sampling rate to a float and
  multiplies in floating point; \<open>int\<close> then truncates it.
\<close>

definition set_time_position ::
  "buffer_audio_source \<Rightarrow> rat \<Rightarrow> buffer_audio_source \<times> error option" where
  "set_time_position s time_position =
     (case float_of_int (sampling_rate s) of
        Inl e \<Rightarrow> (s, Some e)
      | Inr sr \<Rightarrow>
          (case int_of_float (float_mul sr time_position) of
             Inl e \<Rightarrow> (s, Some e)
           | Inr position \<Rightarrow> set_position s position))"

text \<open>
  The state invariant of a \<open>BufferAudioSource\<close>: what the constructor establishes and
  every method keeps. The frame size is 1, 2 or 4 bytes, the buffer is a whole number of
  frames, and the position is a frame boundary inside the buffer.
\<close>

definition source_ok :: "buffer_audio_source \<Rightarrow> bool" where
  "source_ok s \<longleftrightarrow>
     sample_width s \<in> {1, 2, 4} \<and> channels s = 1 \<and>
     sample_size_all_channels s = sample_width s * channels s \<and>
     int (length (buffer s)) mod sample_size_all_channels s = 0 \<and>
     current_position_bytes s mod sample_size_all_channels s = 0 \<and>
     0 \<le> current_position_bytes s \<and>
     current_position_bytes s \<le> int (length (buffer s))"

subsection \<open>\<open>StdinAudioSource\<close>\<close>

record stdin_audio_source = audio_source +
  stdin_is_open :: bool

definition StdinAudioSource_init :: "int \<Rightarrow> int \<Rightarrow> int \<Rightarrow> error + stdin_audio_source" where
  "StdinAudioSource_init sr sw ch =
     (case AudioSource_init sr sw ch of
        Inl e \<Rightarrow> Inl e
      | Inr base \<Rightarrow>
          Inr \<lparr>sampling_rate = sr, sample_width = sw, channels = ch, stdin_is_open = False\<rparr>)"

definition StdinAudioSource_open :: "stdin_audio_source \<Rightarrow> stdin_audio_source" where
  "StdinAudioSource_open s = s\<lparr>stdin_is_open := True\<rparr>"

text \<open>
  Standard input is the list of bytes still to come. \<open>sys.stdin.buffer.read(n)\<close> takes
  \<open>n\<close> bytes, or all that is left when fewer than \<open>n\<close> remain before the end of the
  stream or when \<open>n\<close> is \<open>-1\<close>; it returns the bytes taken and leaves the rest. A
  size below \<open>-1\<close> raises \<open>ValueError\<close>.
\<close>

definition stdin_buffer_read :: "bytes \<Rightarrow> int \<Rightarrow> error + (bytes \<times> bytes)" where
  "stdin_buffer_read inp n =
     (if n < - 1 then Inl (ValueError ''read length must be non-negative or -1'')
      else if n = - 1 then Inr (inp, [])
      else Inr (take (nat n) inp, drop (nat n) inp))"

definition StdinAudioSource_read ::
  "stdin_audio_source \<Rightarrow> bytes \<Rightarrow> int \<Rightarrow> error + (bytes option \<times> bytes)" where
  "StdinAudioSource_read s inp sz =
     (if \<not> stdin_is_open s then Inl (IOError ''Stream is not open'')
      else
        let to_read = sz * sample_width s * channels s
        in case stdin_buffer_read inp to_read of
             Inl e \<Rightarrow> Inl e
           | Inr (data, rest) \<Rightarrow>
               if length data < 1 then Inr (None, rest) else Inr (Some data, rest))"

subsection \<open>Option values and the parameter resolver\<close>

text \<open>
  The values a keyword dictionary holds: \<open>None\<close>, booleans, integers and strings.
  \<open>bool\<close> is a subclass of \<open>int\<close> in Python, so \<open>isinstance(True, int)\<close> holds.
\<close>

datatype pyval = PyNone | PyBool bool | PyInt int | PyStr string

fun truthy :: "pyval \<Rightarrow> bool" where
  "truthy PyNone = False"
| "truthy (PyBool b) = b"
| "truthy (PyInt i) = (i \<noteq> 0)"
| "truthy (PyStr s) = (s \<noteq> [])"

fun isinstance_int :: "pyval \<Rightarrow> bool" where
  "isinstance_int (PyBool b) = True"
| "isinstance_int (PyInt i) = True"
| "isinstance_int v = False"

text \<open>\<open>a or b\<close> is \<open>a\<close> when \<open>a\<close> is truthy and \<open>b\<close> otherwise.\<close>

definition py_or :: "pyval \<Rightarrow> pyval \<Rightarrow> pyval" where
  "py_or a b = (if truthy a then a else b)"

text \<open>\<open>d.get(key, default)\<close>.\<close>

definition dict_get :: "(string \<rightharpoonup> pyval) \<Rightarrow> string \<Rightarrow> pyval \<Rightarrow> pyval" where
  "dict_get d k dflt = (case d k of None \<Rightarrow> dflt | Some v \<Rightarrow> v)"

text \<open>\<open>str(v)\<close>, which \<open>format\<close> applies to each argument.\<close>

fun decimal :: "nat \<Rightarrow> string" where
  "decimal n =
     (if n < 10 then [''0123456789'' ! n]
      else decimal (n div 10) @ [''0123456789'' ! (n mod 10)])"

declare decimal.simps [simp del]

fun py_str :: "pyval \<Rightarrow> string" where
  "py_str PyNone = ''None''"
| "py_str (PyBool b) = (if b then ''True'' else ''False'')"
| "py_str (PyInt i) = (if i < 0 then ''-'' @ decimal (nat (- i)) else decimal (nat i))"
| "py_str (PyStr s) = s"

text \<open>
  \<open>_normalize_use_channel\<close>. The message of its error is the first of the two string
  literals only: the second one stands on a line of its own in the source.
\<close>

definition normalize_use_channel :: "pyval \<Rightarrow> error + pyval" where
  "normalize_use_channel use_channel =
     (if use_channel = PyNone then Inr (PyInt 0)
      else if use_channel = PyStr ''mix'' \<or> isinstance_int use_channel then Inr use_channel
      else if use_channel = PyStr ''left'' then Inr (PyInt 0)
      else if use_channel = PyStr ''right'' then Inr (PyInt 1)
      else Inl (AudioParameterError
        ([CHR 0x27] @ ''use_channel'' @ [CHR 0x27] @ '' parameter must be an integer '')))"

text \<open>
  \<open>_get_audio_parameters\<close>. \<open>err_message\<close> is the format string
  \<open>'{ln}' (or '{sn}') must be an integer, found: '{val}'\<close>; \<open>resolve\<close> is the
  \<open>for\<close> loop over the three pairs of names, which stops at the first parameter it
  rejects. The tuple returned is a list of four values.
\<close>

definition err_message :: "string \<Rightarrow> string \<Rightarrow> pyval \<Rightarrow> string" where
  "err_message long_name short_name val =
     [CHR 0x27] @ long_name @ [CHR 0x27] @ '' (or '' @ [CHR 0x27] @ short_name @ [CHR 0x27] @
     '') must be an integer, found: '' @ [CHR 0x27] @ py_str val @ [CHR 0x27]"

fun resolve :: "(string \<rightharpoonup> pyval) \<Rightarrow> (string \<times> string) list \<Rightarrow> error + pyval list" where
  "resolve param_dict [] = Inr []"
| "resolve param_dict ((long_name, short_name) # names) =
     (let param = py_or (dict_get param_dict long_name PyNone)
                        (dict_get param_dict short_name PyNone)
      in if param = PyNone \<or> \<not> isinstance_int param
         then Inl (AudioParameterError (err_message long_name short_name param))
         else (case resolve param_dict names of
                 Inl e \<Rightarrow> Inl e
               | Inr parameters \<Rightarrow> Inr (param # parameters)))"

definition get_audio_parameters :: "(string \<rightharpoonup> pyval) \<Rightarrow> error + pyval list" where
  "get_audio_parameters param_dict =
     (case resolve param_dict
             [(''sampling_rate'', ''sr''), (''sample_width'', ''sw''), (''channels'', ''ch'')] of
        Inl e \<Rightarrow> Inl e
      | Inr parameters \<Rightarrow>
          (let use_channel =
                 dict_get param_dict ''use_channel'' (dict_get param_dict ''uc'' (PyInt 0))
           in case normalize_use_channel use_channel of
                Inl e \<Rightarrow> Inl e
              | Inr uc \<Rightarrow> Inr (parameters @ [uc])))"

subsection \<open>The channel extractor\<close>

text \<open>
  The module calls \<open>_extract_selected_channel\<close> in \<open>_load_raw\<close>, \<open>_load_wave\<close> and
  \<open>_load_with_pydub\<close> and does not define it. Every definition of this subsection is
  modelled from the specification's data model and its channel extractor.
\<close>

text \<open>
  Modelled from the spec: the use-channel directive, once resolved: a 0-based channel
  index or \<open>mix\<close>.
\<close>

datatype use_channel = Channel nat | Mix

text \<open>
  Modelled from the spec: a sample is \<open>sample_width\<close> contiguous bytes read as a signed
  little-endian integer of that width; \<open>encode_sample\<close> writes one back.
\<close>

primrec le_unsigned :: "bytes \<Rightarrow> int" where
  "le_unsigned [] = 0"
| "le_unsigned (b # bs) = uint b + 256 * le_unsigned bs"

definition decode_sample :: "bytes \<Rightarrow> int" where
  "decode_sample bs =
     (let u = le_unsigned bs
      in if 2 ^ (8 * length bs) \<le> 2 * u then u - 2 ^ (8 * length bs) else u)"

primrec encode_unsigned :: "nat \<Rightarrow> int \<Rightarrow> bytes" where
  "encode_unsigned 0 v = []"
| "encode_unsigned (Suc n) v = word_of_int (v mod 256) # encode_unsigned n (v div 256)"

definition encode_sample :: "nat \<Rightarrow> int \<Rightarrow> bytes" where
  "encode_sample w v = encode_unsigned w (v mod 2 ^ (8 * w))"

text \<open>
  Modelled from the spec: \<open>round_mean t n\<close> is the mean \<open>t / n\<close> rounded to the nearest
  integer. The spec leaves ties open; here a tie goes to the even neighbour, as Python's
  \<open>round\<close> does.
\<close>

definition round_mean :: "int \<Rightarrow> int \<Rightarrow> int" where
  "round_mean t n =
     (let q = t div n; r = t mod n
      in if 2 * r < n then q
         else if n < 2 * r then q + 1
         else if even q then q else q + 1)"

text \<open>
  Modelled from the spec: a frame is \<open>sample_width * channels\<close> contiguous bytes, the
  samples of the channels one after the other; mixing a frame averages its samples.
\<close>

definition frame_at :: "nat \<Rightarrow> bytes \<Rightarrow> nat \<Rightarrow> bytes" where
  "frame_at frame_size buf k = take frame_size (drop (k * frame_size) buf)"

definition sample_at :: "nat \<Rightarrow> bytes \<Rightarrow> nat \<Rightarrow> bytes" where
  "sample_at sw frame c = take sw (drop (c * sw) frame)"

definition mix_frame :: "nat \<Rightarrow> nat \<Rightarrow> bytes \<Rightarrow> bytes" where
  "mix_frame sw ch frame =
     encode_sample sw
       (round_mean (sum_list (map (\<lambda>c. decode_sample (sample_at sw frame c)) [0..<ch]))
          (int ch))"

text \<open>
  Modelled from the spec: \<open>_extract_selected_channel\<close>, the channel extractor, which
  is missing from the module. It fails with a parameter error on a buffer that is not a whole
  number of frames, copies the chosen channel's bytes of every frame for an index, fails
  with an index error for an index that is not below \<open>channels\<close>, and for \<open>mix\<close>
  writes for every frame the mean of its samples rounded to the nearest integer.
\<close>

definition extract_selected_channel ::
  "bytes \<Rightarrow> int \<Rightarrow> int \<Rightarrow> use_channel \<Rightarrow> error + bytes" where
  "extract_selected_channel buf channels' sample_width' use_channel =
     (if channels' \<le> 0 \<or> sample_width' \<le> 0 \<or>
         int (length buf) mod (channels' * sample_width') \<noteq> 0
      then Inl (AudioParameterError
        ''the length of the buffer is not a multiple of channels * sample_width'')
      else
        let ch = nat channels'; sw = nat sample_width';
            frame_size = sw * ch; n = length buf div frame_size
        in case use_channel of
             Mix \<Rightarrow>
               Inr (concat (map (\<lambda>k. mix_frame sw ch (frame_at frame_size buf k)) [0..<n]))
           | Channel i \<Rightarrow>
               if ch \<le> i then Inl IndexError
               else Inr (concat (map (\<lambda>k. sample_at sw (frame_at frame_size buf k) i)
                                  [0..<n])))"

subsection \<open>The format dispatcher\<close>

text \<open>
  \<open>str.lower\<close> on ASCII letters, and \<open>os.path.splitext\<close> of the POSIX path module:
  the extension starts at the last dot of the last path component, unless that component
  has only dots before it.
\<close>

definition lower_char :: "char \<Rightarrow> char" where
  "lower_char c =
     (let n = (of_char c :: nat) in if 65 \<le> n \<and> n \<le> 90 then char_of (n + 32) else c)"

definition lower :: "string \<Rightarrow> string" where
  "lower s = map lower_char s"

primrec rfind_from :: "string \<Rightarrow> char \<Rightarrow> int \<Rightarrow> int \<Rightarrow> int" where
  "rfind_from [] c i found = found"
| "rfind_from (x # xs) c i found = rfind_from xs c (i + 1) (if x = c then i else found)"

definition rfind :: "string \<Rightarrow> char \<Rightarrow> int" where
  "rfind p c = rfind_from p c 0 (- 1)"

definition splitext :: "string \<Rightarrow> string \<times> string" where
  "splitext p =
     (let sepIndex = rfind p (CHR ''/''); dotIndex = rfind p (CHR ''.'')
      in if sepIndex < dotIndex \<and>
            list_ex (\<lambda>c. c \<noteq> CHR ''.'') (py_slice p (sepIndex + 1) dotIndex)
         then (take (nat dotIndex) p, drop (nat dotIndex) p)
         else (p, []))"

definition guess_audio_format :: "string option \<Rightarrow> string \<Rightarrow> string option" where
  "guess_audio_format fmt filename =
     (case fmt of
        None \<Rightarrow>
          (let extension = drop 1 (snd (splitext (lower filename)))
           in if extension \<noteq> [] then Some extension else None)
      | Some f \<Rightarrow> Some (lower f))"

text \<open>
  The files of the file system, by path. \<open>_save_raw\<close> writes the data as the whole
  content of the file.
\<close>

type_synonym filesystem = "string \<rightharpoonup> bytes"

definition save_raw :: "filesystem \<Rightarrow> string \<Rightarrow> bytes \<Rightarrow> filesystem" where
  "save_raw fs file data = fs(file \<mapsto> data)"

text \<open>
  What \<open>_load_raw\<close> returns: a \<open>BufferAudioSource\<close>, or for a large file the lazy
  source \<open>RawAudioSource\<close>, a class that the module names and does not define; it is
  kept as the arguments of its constructor.
\<close>

datatype loaded_source =
    BufferSource buffer_audio_source
  | RawSource string int int int use_channel

definition load_raw ::
  "filesystem \<Rightarrow> string \<Rightarrow> int option \<Rightarrow> int option \<Rightarrow> int option \<Rightarrow> use_channel \<Rightarrow> bool
     \<Rightarrow> error + loaded_source" where
  "load_raw fs file sampling_rate' sample_width' channels' use_channel large_file =
     (case (sampling_rate', sample_width', channels') of
        (Some sr, Some sw, Some ch) \<Rightarrow>
          if large_file then Inr (RawSource file sr sw ch use_channel)
          else
            (case fs file of
               None \<Rightarrow> Inl (IOError ''No such file or directory'')
             | Some data \<Rightarrow>
                 (case (if ch \<noteq> 1 then extract_selected_channel data ch sw use_channel
                        else Inr data) of
                    Inl e \<Rightarrow> Inl e
                  | Inr data \<Rightarrow>
                      (case BufferAudioSource_init data sr sw 1 of
                         Inl e \<Rightarrow> Inl e
                       | Inr src \<Rightarrow> Inr (BufferSource src))))
      | _ \<Rightarrow> Inl (AudioParameterError
                 ''All audio parameters are required for raw audio files''))"

text \<open>
  The collaborators of the save path that are outside the module: whether \<open>pydub\<close>
  was imported, and the writers of the \<open>wave\<close> module and of \<open>pydub\<close>, each taking
  the file system, the path, the data and the parameters, and returning the file system
  after the call with the outcome.
\<close>

record collaborators =
  with_pydub :: bool
  save_wave ::
    "filesystem \<Rightarrow> string \<Rightarrow> bytes \<Rightarrow> pyval \<Rightarrow> pyval \<Rightarrow> pyval \<Rightarrow> filesystem \<times> (error + unit)"
  save_with_pydub ::
    "filesystem \<Rightarrow> string \<Rightarrow> bytes \<Rightarrow> string \<Rightarrow> pyval \<Rightarrow> pyval \<Rightarrow> pyval
       \<Rightarrow> filesystem \<times> (error + unit)"

text \<open>
  \<open>to_file\<close> returns the file system after the call and the outcome. The message of
  the parameter error is the first of the two string literals only, as in
  \<open>_normalize_use_channel\<close>. Unpacking the tuple of parameters raises \<open>ValueError\<close>
  when it does not hold four values.
\<close>

definition to_file ::
  "collaborators \<Rightarrow> filesystem \<Rightarrow> bytes \<Rightarrow> string \<Rightarrow> string option \<Rightarrow> (string \<rightharpoonup> pyval)
     \<Rightarrow> filesystem \<times> (error + unit)" where
  "to_file ext fs data file audio_format kwargs =
     (let audio_format = guess_audio_format audio_format file
      in if audio_format = None \<or> audio_format = Some ''raw''
         then (save_raw fs file data, Inr ())
         else
           (case get_audio_parameters kwargs of
              Inl (AudioParameterError exc) \<Rightarrow>
                (fs, Inl (AudioParameterError
                   ''All audio parameters are required to save formats ''))
            | Inl e \<Rightarrow> (fs, Inl e)
            | Inr [sampling_rate', sample_width', channels', uc] \<Rightarrow>
                if audio_format = Some ''wav'' \<or> audio_format = Some ''wave''
                then save_wave ext fs file data sampling_rate' sample_width' channels'
                else if with_pydub ext
                then save_with_pydub ext fs file data (the audio_format)
                       sampling_rate' sample_width' channels'
                else (fs, Inl (AudioIOError
                   (''cannot write file format '' @ the audio_format @
                    '' (file name: '' @ file @ '')'')))
            | Inr _ \<Rightarrow> (fs, Inl (ValueError ''not enough values to unpack''))))"

subsection \<open>Concrete inputs\<close>

text \<open>
  An open source over eight bytes (four samples of two bytes) at a sampling rate of 4,
  positioned after the first sample.
\<close>

definition example_source :: buffer_audio_source where
  "example_source =
     \<lparr>sampling_rate = 4, sample_width = 2, channels = 1,
      buffer = [1, 2, 3, 4, 5, 6, 7, 8],
      sample_size_all_channels = 2,
      current_position_bytes = 2,
      is_open = True\<rparr>"

text \<open>
  The two stereo frames \<open>(100, 200)\<close> and \<open>(-50, 50)\<close> of 2-byte samples, interleaved.
\<close>

definition example_frames :: bytes where
  "example_frames = [100, 0, 200, 0, 206, 255, 50, 0]"

text \<open>
  Options that give \<open>sampling_rate\<close> by its long name, with the value 0, and by its
  alias.
\<close>

definition example_options :: "string \<rightharpoonup> pyval" where
  "example_options =
     [''sampling_rate'' \<mapsto> PyInt 0, ''sr'' \<mapsto> PyInt 16000,
      ''sample_width'' \<mapsto> PyInt 2, ''channels'' \<mapsto> PyInt 1]"

text \<open>
  Stand-ins for the writers outside the module: each stores the data under the path
  without encoding it. Only that they write is used.
\<close>

definition example_collaborators :: collaborators where
  "example_collaborators =
     \<lparr>with_pydub = True,
      save_wave = (\<lambda>fs file data sr sw ch. (fs(file \<mapsto> data), Inr ())),
      save_with_pydub = (\<lambda>fs file data fmt sr sw ch. (fs(file \<mapsto> data), Inr ()))\<rparr>"

text \<open>Options that give no number of channels.\<close>

definition example_partial_options :: "string \<rightharpoonup> pyval" where
  "example_partial_options = [''sr'' \<mapsto> PyInt 16000, ''sw'' \<mapsto> PyInt 2]"

section \<open>Properties\<close>

subsection \<open>Slices and the state invariant\<close>

lemma slice_bound_nonneg: "0 \<le> i \<Longrightarrow> slice_bound n i = min (nat i) n"
  by (simp add: slice_bound_def)

lemma slice_bound_le: "slice_bound n i \<le> n"
  by (auto simp add: slice_bound_def max_def)

lemma py_slice_nonneg:
  "0 \<le> a \<Longrightarrow> a \<le> b \<Longrightarrow> py_slice xs a b = take (nat b - nat a) (drop (nat a) xs)"
  by (cases "nat a \<le> length xs") (auto simp add: py_slice_def slice_bound_nonneg Let_def min_def)

lemma py_slice_same: "py_slice xs a a = []"
  by (simp add: py_slice_def Let_def)

lemma length_py_slice:
  "length (py_slice xs a b) = slice_bound (length xs) b - slice_bound (length xs) a"
  using slice_bound_le [of "length xs" b]
  by (simp add: py_slice_def Let_def)

lemma source_okD:
  assumes "source_ok s"
  shows "sample_size_all_channels s \<in> {1, 2, 4}"
    and "0 < sample_size_all_channels s"
    and "sample_width s * channels s = sample_size_all_channels s"
    and "int (length (buffer s)) mod sample_size_all_channels s = 0"
    and "current_position_bytes s mod sample_size_all_channels s = 0"
    and "0 \<le> current_position_bytes s"
    and "current_position_bytes s \<le> int (length (buffer s))"
  using assms unfolding source_ok_def by auto

lemma div_mult_eq_iff: "(a div b) * b = a \<longleftrightarrow> a mod b = 0" for a b :: int
  using minus_div_mult_eq_mod [of a b] by auto

lemma check_audio_data_Inr:
  "check_audio_data d sw ch = Inr u \<longleftrightarrow> sw * ch \<noteq> 0 \<and> int (length d) mod (sw * ch) = 0"
  unfolding check_audio_data_def Let_def
  using div_mult_eq_iff [of "int (length d)" "sw * ch"] by auto

text \<open>The constructor establishes the invariant and every method keeps it.\<close>

lemma init_source_ok:
  "BufferAudioSource_init d sr sw ch = Inr s \<Longrightarrow> source_ok s"
  by (auto simp add: BufferAudioSource_init_def AudioSource_init_def source_ok_def
      check_audio_data_Inr split: if_splits sum.splits)

lemma open_source_ok: "source_ok s \<Longrightarrow> source_ok (BufferAudioSource_open s)"
  unfolding source_ok_def BufferAudioSource_open_def by auto

lemma set_position_source_ok:
  "source_ok s \<Longrightarrow> source_ok (fst (set_position s p))"
  unfolding source_ok_def set_position_def Let_def by auto

lemma set_time_position_source_ok:
  "source_ok s \<Longrightarrow> source_ok (fst (set_time_position s t))"
  by (auto simp add: set_time_position_def set_position_source_ok split: sum.splits)

lemma close_source_ok:
  "source_ok s \<Longrightarrow> source_ok (fst (BufferAudioSource_close s))"
  unfolding source_ok_def BufferAudioSource_close_def rewind_def set_position_def Let_def by auto

lemma set_data_source_ok:
  "source_ok s \<Longrightarrow> set_data s d = Inr s' \<Longrightarrow> source_ok s'"
  unfolding source_ok_def set_data_def by (auto simp add: check_audio_data_Inr split: sum.splits)

lemma append_data_source_ok:
  "source_ok s \<Longrightarrow> append_data s d = Inr s' \<Longrightarrow> source_ok s'"
  unfolding source_ok_def append_data_def
  by (auto simp add: check_audio_data_Inr split: sum.splits)

lemma read_slice:
  assumes ok: "source_ok s" and sz: "0 \<le> sz"
  shows "py_slice (buffer s) (current_position_bytes s)
           (current_position_bytes s + sample_size_all_channels s * sz) =
         take (nat (sz * sample_size_all_channels s))
           (drop (nat (current_position_bytes s)) (buffer s))"
proof -
  have "0 \<le> sz * sample_size_all_channels s"
    using sz source_okD(2) [OF ok] by simp
  then show ?thesis
    using source_okD(6) [OF ok]
      py_slice_nonneg [of "current_position_bytes s"
        "current_position_bytes s + sz * sample_size_all_channels s" "buffer s"]
    by (simp add: mult.commute nat_diff_distrib nat_add_distrib)
qed

lemma source_ok_move:
  "source_ok s \<Longrightarrow> p mod sample_size_all_channels s = 0 \<Longrightarrow> 0 \<le> p \<Longrightarrow>
   p \<le> int (length (buffer s)) \<Longrightarrow> source_ok (s\<lparr>current_position_bytes := p\<rparr>)"
  unfolding source_ok_def by auto

lemma read_cases:
  assumes "BufferAudioSource_read s sz = Inr (d, s')"
  shows "s' = s \<or>
         s' = s\<lparr>current_position_bytes := current_position_bytes s +
                int (length (py_slice (buffer s) (current_position_bytes s)
                  (current_position_bytes s + sample_size_all_channels s * sz)))\<rparr>"
  using assms by (auto simp add: BufferAudioSource_read_def Let_def split: if_splits)

lemma read_length:
  assumes ok: "source_ok s"
  shows "\<exists>k. 0 \<le> k \<and>
           current_position_bytes s + k * sample_size_all_channels s \<le> int (length (buffer s)) \<and>
           int (length (py_slice (buffer s) (current_position_bytes s)
                  (current_position_bytes s + sample_size_all_channels s * sz))) =
           k * sample_size_all_channels s"
proof -
  let ?fs = "sample_size_all_channels s"
  let ?pos = "current_position_bytes s"
  let ?len = "int (length (buffer s))"
  let ?n = "length (buffer s)"
  let ?data = "py_slice (buffer s) ?pos (?pos + ?fs * sz)"
  have fs: "0 < ?fs" and pos: "0 \<le> ?pos" "?pos \<le> ?len"
    and al: "?len mod ?fs = 0" "?pos mod ?fs = 0"
    using source_okD [OF ok] by simp_all
  from al obtain a b where a: "?len = a * ?fs" and b: "?pos = b * ?fs"
    by (metis mod_eq_0_iff_dvd dvd_def mult.commute)
  have ba: "b \<le> a" using pos a b fs by (simp add: mult_le_cancel_right)
  have b0: "0 \<le> b" using pos b fs by (simp add: zero_le_mult_iff)
  have lo: "slice_bound ?n ?pos = nat ?pos"
    using pos by (simp add: slice_bound_nonneg)
  have L: "int (length ?data) = int (slice_bound ?n (?pos + ?fs * sz)) - ?pos
      \<or> length ?data = 0"
    using lo pos by (simp add: length_py_slice) linarith
  consider (empty) "length ?data = 0"
    | (clip) "length ?data \<noteq> 0" "0 \<le> ?pos + ?fs * sz" "?len \<le> ?pos + ?fs * sz"
    | (inside) "length ?data \<noteq> 0" "0 \<le> ?pos + ?fs * sz" "?pos + ?fs * sz < ?len"
    | (fromend) "length ?data \<noteq> 0" "?pos + ?fs * sz < 0"
    by linarith
  then show ?thesis
  proof cases
    case empty
    then show ?thesis using pos by (intro exI [of _ 0]) simp
  next
    case clip
    then have "int (slice_bound ?n (?pos + ?fs * sz)) = ?len"
      by (simp add: slice_bound_nonneg)
    with L clip(1) have "int (length ?data) = (a - b) * ?fs"
      using a b by (simp add: left_diff_distrib)
    then show ?thesis using ba a b
      by (intro exI [of _ "a - b"]) (simp add: left_diff_distrib)
  next
    case inside
    then have "int (slice_bound ?n (?pos + ?fs * sz)) = ?pos + ?fs * sz"
      by (simp add: slice_bound_nonneg)
    with L inside(1) have l: "int (length ?data) = sz * ?fs" by (simp add: mult.commute)
    then have "0 \<le> sz * ?fs" by (metis of_nat_0_le_iff)
    then have "0 \<le> sz" using fs by (simp add: zero_le_mult_iff)
    then show ?thesis using l inside
      by (intro exI [of _ sz]) (simp add: mult.commute)
  next
    case fromend
    then have "int (slice_bound ?n (?pos + ?fs * sz)) = max (?pos + ?fs * sz + ?len) 0"
      by (simp add: slice_bound_def)
    with L fromend(1) have l: "int (length ?data) = max (?pos + ?fs * sz + ?len) 0 - ?pos"
      by simp
    then have "0 < max (?pos + ?fs * sz + ?len) 0 - ?pos" using fromend(1) by linarith
    then have "0 < ?pos + ?fs * sz + ?len" using pos by linarith
    then have "int (length ?data) = ?fs * sz + ?len" using l by linarith
    then have l2: "int (length ?data) = (sz + a) * ?fs"
      using a by (simp add: algebra_simps)
    then have "0 \<le> (sz + a) * ?fs" by (metis of_nat_0_le_iff)
    then have "0 \<le> sz + a" using fs by (simp add: zero_le_mult_iff)
    moreover have "?pos + (sz + a) * ?fs \<le> ?len"
      using fromend(2) a by (simp add: algebra_simps)
    ultimately show ?thesis using l2
      by (intro exI [of _ "sz + a"]) simp
  qed
qed

lemma read_source_ok:
  assumes ok: "source_ok s" and rd: "BufferAudioSource_read s sz = Inr (d, s')"
  shows "source_ok s'"
proof -
  let ?fs = "sample_size_all_channels s"
  let ?pos = "current_position_bytes s"
  obtain k where k: "0 \<le> k" "?pos + k * ?fs \<le> int (length (buffer s))"
    "int (length (py_slice (buffer s) ?pos (?pos + ?fs * sz))) = k * ?fs"
    using read_length [OF ok, of sz] by blast
  have fs: "0 < ?fs" and pos: "0 \<le> ?pos" and al: "?pos mod ?fs = 0"
    using source_okD [OF ok] by simp_all
  have "(?pos + k * ?fs) mod ?fs = 0" using al by (simp add: mod_eq_0_iff_dvd)
  moreover have "0 \<le> ?pos + k * ?fs" using pos k(1) fs by simp
  ultimately have "source_ok (s\<lparr>current_position_bytes := ?pos + k * ?fs\<rparr>)"
    using k(2) by (intro source_ok_move [OF ok])
  then show ?thesis using read_cases [OF rd] ok k(3) by auto
qed

text \<open>
  Every buffer that \<open>BufferAudioSource.read\<close> returns is a whole number of frames,
  whatever the size asked for, negative sizes included.
\<close>

lemma read_frame_aligned:
  assumes ok: "source_ok s" and rd: "BufferAudioSource_read s sz = Inr (Some d, s')"
  shows "int (length d) mod (sample_width s * channels s) = 0"
proof -
  obtain k where k:
    "int (length (py_slice (buffer s) (current_position_bytes s)
       (current_position_bytes s + sample_size_all_channels s * sz))) =
     k * sample_size_all_channels s"
    using read_length [OF ok, of sz] by blast
  have "d = py_slice (buffer s) (current_position_bytes s)
       (current_position_bytes s + sample_size_all_channels s * sz)"
    using rd by (auto simp add: BufferAudioSource_read_def Let_def split: if_splits)
  then show ?thesis using k source_okD(3) [OF ok] by simp
qed

subsection \<open>Floating-point rounding\<close>

lemma bit_length_bounds:
  "0 < n \<Longrightarrow> 2 ^ (bit_length n - 1) \<le> n \<and> n < 2 ^ bit_length n"
proof (induction n rule: bit_length.induct)
  case (1 n)
  show ?case
  proof (cases "n div 2 = 0")
    case True
    with "1.prems" have "n = 1" by presburger
    then show ?thesis by (simp add: bit_length.simps)
  next
    case False
    then have h: "0 < n div 2" by simp
    with "1.IH" "1.prems" have ih: "2 ^ (bit_length (n div 2) - 1) \<le> n div 2"
      "n div 2 < 2 ^ bit_length (n div 2)" by simp_all
    have bl: "bit_length n = Suc (bit_length (n div 2))"
      using "1.prems" by (subst bit_length.simps) simp
    have pos: "0 < bit_length (n div 2)"
      using h by (subst bit_length.simps) simp
    then have "(2::nat) ^ bit_length (n div 2) = 2 * 2 ^ (bit_length (n div 2) - 1)"
      by (cases "bit_length (n div 2)") simp_all
    with ih show ?thesis unfolding bl by simp linarith
  qed
qed

lemma round_half_even_int: "round_half_even (of_int k) = k"
  by (simp add: round_half_even_def)

lemma pow2_pos: "0 < pow2 k"
  by (simp add: pow2_def)

lemma round_half_even_nonneg: "0 \<le> x \<Longrightarrow> 0 \<le> round_half_even x"
  by (auto simp add: round_half_even_def Let_def)

lemma float_round_finite_eq:
  assumes x: "0 < x" and r: "of_int (round_half_even (x / pow2 (max (floor_log2 x) (- 1022) - 52)))
      * pow2 (max (floor_log2 x) (- 1022) - 52) = y" and y: "y < 2 ^ 1024"
  shows "float_round x = Finite y"
proof -
  have ax: "\<bar>x\<bar> = x" using x by simp
  have "\<not> 2 ^ 1024 \<le> y" using y by simp
  then show ?thesis
    unfolding float_round_def Let_def ax r using x by (simp only: if_False) simp
qed

lemma float_round_int:
  assumes n0: "0 \<le> n" and n53: "n \<le> 2 ^ 53"
  shows "float_round (of_int n) = Finite (of_int n)"
proof (cases "n = 0")
  case True
  then show ?thesis by (simp add: float_round_def)
next
  case False
  then have np: "0 < n" using n0 by simp
  let ?b = "bit_length (nat n)"
  let ?e = "int ?b - 1"
  let ?k = "?e - 52"
  have bb: "2 ^ (?b - 1) \<le> nat n" "nat n < 2 ^ ?b"
    using bit_length_bounds [of "nat n"] np by simp_all
  have bpos: "0 < ?b" using bb(2) np by (cases ?b) simp_all
  have fl: "floor_log2 (of_int n) = ?e"
    using np by (simp add: floor_log2_def)
  have n53': "nat n \<le> 2 ^ 53" using n53 np by (simp add: nat_le_iff)
  have b54: "?b - 1 \<le> 53"
  proof (rule power_le_imp_le_exp)
    show "(1::nat) < 2" by simp
    show "(2::nat) ^ (?b - 1) \<le> 2 ^ 53" using bb(1) n53' by (rule order_trans)
  qed
  have e: "max (floor_log2 (of_int n)) (- 1022) = ?e" using bpos fl by simp
  have "\<exists>m::int. (of_int n :: rat) = of_int m * pow2 ?k"
  proof (cases "?b - 1 = 53")
    case True
    then have "2 ^ 53 \<le> nat n" using bb(1) by simp
    then have "nat n = 2 ^ 53" using n53' by (rule antisym [rotated])
    then have n: "n = 2 ^ 53" using np by (simp add: nat_eq_iff)
    have k: "?k = 1" using True bpos by linarith
    have p: "pow2 ?k = 2" by (simp only: k) (simp add: pow2_def)
    have "(of_int n :: rat) = of_int (2 ^ 52) * pow2 ?k"
      unfolding p using n by simp
    then show ?thesis by (rule exI)
  next
    case False
    then have le: "?k \<le> 0" using b54 bpos by linarith
    show ?thesis
    proof (cases "?k = 0")
      case True
      have p: "pow2 ?k = 1" by (simp only: True) (simp add: pow2_def)
      have "(of_int n :: rat) = of_int n * pow2 ?k" unfolding p by simp
      then show ?thesis by (rule exI)
    next
      case F: False
      then have p: "pow2 ?k = 1 / 2 ^ nat (- ?k)"
        using le by (simp add: pow2_def)
      have "(of_int n :: rat) = of_int (n * 2 ^ nat (- ?k)) * pow2 ?k"
        unfolding p by simp
      then show ?thesis by (rule exI)
    qed
  qed
  then obtain m :: int where m: "(of_int n :: rat) = of_int m * pow2 ?k" by blast
  have q: "(of_int n :: rat) / pow2 ?k = of_int m"
    using m pow2_pos [of ?k] by simp
  have "(of_int n :: rat) \<le> of_int (2 ^ 53)" using n53 by (simp only: of_int_le_iff)
  then have le53: "(of_int n :: rat) \<le> 2 ^ 53" by simp
  have "(2::rat) ^ 53 < 2 ^ 1024" by (rule power_strict_increasing) simp_all
  with le53 have big: "(of_int n :: rat) < 2 ^ 1024" by (rule le_less_trans)
  have pos: "(0::rat) < of_int n" using np by simp
  show ?thesis
  proof (rule float_round_finite_eq [OF pos _ big])
    show "of_int (round_half_even (of_int n / pow2 (max (floor_log2 (of_int n)) (- 1022) - 52)))
      * pow2 (max (floor_log2 (of_int n)) (- 1022) - 52) = (of_int n :: rat)"
      unfolding e q round_half_even_int using m by simp
  qed
qed

lemma float_of_int_exact:
  assumes "0 \<le> n" and "n \<le> 2 ^ 53"
  shows "float_of_int n = Inr (of_int n)"
  unfolding float_of_int_def float_round_int [OF assms] by simp

lemma float_round_nonneg:
  assumes "0 \<le> x" and "float_round x = Finite y"
  shows "0 \<le> y"
proof (cases "x = 0")
  case True
  with assms show ?thesis by (simp add: float_round_def)
next
  case False
  let ?ulp = "pow2 (max (floor_log2 \<bar>x\<bar>) (- 1022) - 52)"
  let ?r = "(of_int (round_half_even (\<bar>x\<bar> / ?ulp)) :: rat) * ?ulp"
  have "0 \<le> \<bar>x\<bar> / ?ulp" using pow2_pos [of "max (floor_log2 \<bar>x\<bar>) (- 1022) - 52"] by simp
  then have "0 \<le> round_half_even (\<bar>x\<bar> / ?ulp)" by (rule round_half_even_nonneg)
  then have r: "0 \<le> ?r"
    using pow2_pos [of "max (floor_log2 \<bar>x\<bar>) (- 1022) - 52"] by simp
  have "float_round x = (if 2 ^ 1024 \<le> ?r then Infinite else Finite ?r)"
    using False assms(1) unfolding float_round_def Let_def by (simp only: if_False) simp
  with assms(2) have "y = ?r" by (simp split: if_splits)
  with r show ?thesis by simp
qed

text \<open>
  Three values of the rounding: \<open>7/4\<close> and \<open>1/4\<close> are doubles, and the float product
  of 10 and the double nearest to \<open>0.3\<close> is \<open>3.0\<close>, although the exact product is below 3.
\<close>

lemma float_round_7_4: "float_round (7 / 4) = Finite (7 / 4)"
proof (rule float_round_finite_eq)
  have f: "\<lfloor>7 / 4 :: rat\<rfloor> = 1" by (simp add: floor_eq_iff)
  have e: "floor_log2 (7 / 4) = 0"
    by (simp add: floor_log2_def f bit_length.simps)
  show "of_int (round_half_even (7 / 4 / pow2 (max (floor_log2 (7 / 4)) (- 1022) - 52)))
      * pow2 (max (floor_log2 (7 / 4)) (- 1022) - 52) = (7 / 4 :: rat)"
    unfolding e by (simp add: pow2_def round_half_even_def)
  show "(7 / 4 :: rat) < 2 ^ 1024"
  proof -
    have "(7 / 4 :: rat) < 2 ^ 1" by simp
    also have "(2 :: rat) ^ 1 < 2 ^ 1024" by (rule power_strict_increasing) simp_all
    finally show ?thesis .
  qed
qed simp

lemma float_round_1_4: "float_round (1 / 4) = Finite (1 / 4)"
proof (rule float_round_finite_eq)
  have e: "floor_log2 (1 / 4) = - 2"
    by (simp add: floor_log2_def bit_length.simps)
  show "of_int (round_half_even (1 / 4 / pow2 (max (floor_log2 (1 / 4)) (- 1022) - 52)))
      * pow2 (max (floor_log2 (1 / 4)) (- 1022) - 52) = (1 / 4 :: rat)"
    unfolding e by (simp add: pow2_def round_half_even_def)
  show "(1 / 4 :: rat) < 2 ^ 1024"
  proof -
    have "(1 / 4 :: rat) < 2 ^ 1" by simp
    also have "(2 :: rat) ^ 1 < 2 ^ 1024" by (rule power_strict_increasing) simp_all
    finally show ?thesis .
  qed
qed simp

lemma float_mul_10_03: "float_mul 10 (5404319552844595 / 18014398509481984) = Finite 3"
  unfolding float_mul_def
proof (rule float_round_finite_eq)
  let ?x = "10 * (5404319552844595 / 18014398509481984) :: rat"
  have f: "\<lfloor>?x\<rfloor> = 2" by (simp add: floor_eq_iff)
  have g: "\<lfloor>27021597764222975 / 4 :: rat\<rfloor> = 6755399441055743"
    by (simp add: floor_eq_iff)
  have e: "floor_log2 ?x = 1"
    unfolding floor_log2_def f by (simp add: bit_length.simps)
  show "of_int (round_half_even (?x / pow2 (max (floor_log2 ?x) (- 1022) - 52)))
      * pow2 (max (floor_log2 ?x) (- 1022) - 52) = (3 :: rat)"
    unfolding e by (simp add: pow2_def round_half_even_def g Let_def)
  show "(3 :: rat) < 2 ^ 1024"
  proof -
    have "(3 :: rat) < 2 ^ 2" by simp
    also have "(2 :: rat) ^ 2 < 2 ^ 1024" by (rule power_strict_increasing) simp_all
    finally show ?thesis .
  qed
qed simp

subsection \<open>Reading from a \<open>BufferAudioSource\<close>\<close>

text \<open>
  Claim C5. On an open \<open>BufferAudioSource\<close> and for a positive size, \<open>read(size)\<close>
  returns the \<open>size\<close> frames that start at the current position when that many remain
  (\<open>size * frame_size\<close> bytes), all the remaining bytes when fewer remain and the
  position is before the end, and the end-marker \<open>None\<close> when the position is the end
  of the buffer. The position advances by the number of bytes returned, and stays where
  it is with the end-marker.
\<close>

theorem read_positive_size:
  assumes ok: "source_ok s" and op: "is_open s" and sz: "0 < sz"
  shows "BufferAudioSource_read s sz =
     (let pos = current_position_bytes s;
          wanted = sz * sample_size_all_channels s;
          remaining = int (length (buffer s)) - pos;
          rest = drop (nat pos) (buffer s)
      in if wanted \<le> remaining
         then Inr (Some (take (nat wanted) rest), s\<lparr>current_position_bytes := pos + wanted\<rparr>)
         else if 0 < remaining
         then Inr (Some rest, s\<lparr>current_position_bytes := pos + remaining\<rparr>)
         else Inr (None, s)) \<and>
     int (length (drop (nat (current_position_bytes s)) (buffer s))) =
       int (length (buffer s)) - current_position_bytes s \<and>
     int (length (take (nat (sz * sample_size_all_channels s))
                   (drop (nat (current_position_bytes s)) (buffer s)))) =
       min (sz * sample_size_all_channels s)
           (int (length (buffer s)) - current_position_bytes s)"
proof -
  let ?pos = "current_position_bytes s"
  let ?fs = "sample_size_all_channels s"
  let ?w = "sz * ?fs"
  let ?rest = "drop (nat ?pos) (buffer s)"
  have fs: "0 < ?fs" and pos: "0 \<le> ?pos" "?pos \<le> int (length (buffer s))"
    using source_okD [OF ok] by simp_all
  have w: "0 < ?w" using sz fs by simp
  have sl: "py_slice (buffer s) ?pos (?pos + ?fs * sz) = take (nat ?w) ?rest"
    using read_slice [OF ok, of sz] sz by simp
  have lrest: "int (length ?rest) = int (length (buffer s)) - ?pos"
    using pos by simp
  have ltake: "int (length (take (nat ?w) ?rest)) =
      min ?w (int (length (buffer s)) - ?pos)"
  proof -
    have "length (take (nat ?w) ?rest) = min (nat ?w) (length ?rest)" by simp
    then have "int (length (take (nat ?w) ?rest)) = min ?w (int (length ?rest))"
      using w by (cases "nat ?w \<le> length ?rest") linarith+
    then show ?thesis using lrest by simp
  qed
  have eq: "BufferAudioSource_read s sz =
     (if ?w \<le> int (length (buffer s)) - ?pos
      then Inr (Some (take (nat ?w) ?rest), s\<lparr>current_position_bytes := ?pos + ?w\<rparr>)
      else if 0 < int (length (buffer s)) - ?pos
      then Inr (Some ?rest,
             s\<lparr>current_position_bytes := ?pos + (int (length (buffer s)) - ?pos)\<rparr>)
      else Inr (None, s))"
  proof (cases "?w \<le> int (length (buffer s)) - ?pos")
    case True
    then have len: "int (length (take (nat ?w) ?rest)) = ?w"
      using ltake by simp
    with w have "take (nat ?w) ?rest \<noteq> []" by auto
    then show ?thesis using True op len
      by (simp add: BufferAudioSource_read_def sl Let_def)
  next
    case False
    then have tk: "take (nat ?w) ?rest = ?rest"
      using lrest by simp
    show ?thesis
    proof (cases "0 < int (length (buffer s)) - ?pos")
      case True
      then have "?rest \<noteq> []" using pos by simp
      then show ?thesis using False True op lrest
        by (simp add: BufferAudioSource_read_def sl tk Let_def)
    next
      case F2: False
      then have "?rest = []" using pos by simp
      then show ?thesis using False F2 op
        by (simp add: BufferAudioSource_read_def sl tk Let_def)
    qed
  qed
  show ?thesis using eq lrest ltake by (simp add: Let_def)
qed

theorem read_positive_size_witness:
  "source_ok example_source \<and> is_open example_source \<and>
   BufferAudioSource_read example_source 1 =
     Inr (Some [3, 4], example_source\<lparr>current_position_bytes := 4\<rparr>) \<and>
   BufferAudioSource_read example_source 5 =
     Inr (Some [3, 4, 5, 6, 7, 8], example_source\<lparr>current_position_bytes := 8\<rparr>) \<and>
   BufferAudioSource_read (example_source\<lparr>current_position_bytes := 8\<rparr>) 3 =
     Inr (None, example_source\<lparr>current_position_bytes := 8\<rparr>)"
proof -
  have ok: "source_ok example_source" and op: "is_open example_source"
    by (simp_all add: source_ok_def example_source_def)
  have ok8: "source_ok (example_source\<lparr>current_position_bytes := 8\<rparr>)"
    and op8: "is_open (example_source\<lparr>current_position_bytes := 8\<rparr>)"
    by (simp_all add: source_ok_def example_source_def)
  show ?thesis
    using ok op read_positive_size [OF ok op, of 1] read_positive_size [OF ok op, of 5]
      read_positive_size [OF ok8 op8, of 3]
    by (simp add: example_source_def)
qed

text \<open>
  Claim C10. On an open \<open>BufferAudioSource\<close>, \<open>read(0)\<close> returns the end-marker
  \<open>None\<close> and leaves the source, its position included, as it was, wherever the
  position is: the slice of no bytes is empty, as it is at the end of the buffer.
\<close>

theorem read_zero_is_end_marker:
  "is_open s \<Longrightarrow> BufferAudioSource_read s 0 = Inr (None, s)"
  by (simp add: BufferAudioSource_read_def py_slice_same)

theorem read_zero_is_end_marker_witness:
  "is_open example_source \<and>
   current_position_bytes example_source < int (length (buffer example_source)) \<and>
   BufferAudioSource_read example_source 0 = Inr (None, example_source)"
proof -
  have op: "is_open example_source" by (simp add: example_source_def)
  show ?thesis
    using op read_zero_is_end_marker [OF op] by (simp add: example_source_def)
qed

subsection \<open>Replacing and extending the data\<close>

text \<open>
  Claim C9. For a buffer \<open>b\<close> that is a whole number of frames, \<open>append_data(b)\<close>
  succeeds, makes the backing buffer longer by exactly \<open>len(b)\<close> and leaves the read
  position where it was; \<open>set_data(b)\<close> succeeds, makes \<open>b\<close> the backing buffer and
  puts the position at 0.
\<close>

theorem append_and_set_data:
  assumes ok: "source_ok s"
    and aligned: "int (length b) mod (sample_width s * channels s) = 0"
  shows "(\<exists>s'. append_data s b = Inr s' \<and>
               length (buffer s') = length (buffer s) + length b \<and>
               buffer s' = buffer s @ b \<and>
               current_position_bytes s' = current_position_bytes s) \<and>
         (\<exists>s'. set_data s b = Inr s' \<and> buffer s' = b \<and> current_position_bytes s' = 0)"
proof -
  have "sample_width s * channels s \<noteq> 0"
    using source_okD(2,3) [OF ok] by simp
  with aligned have "check_audio_data b (sample_width s) (channels s) = Inr ()"
    by (simp add: check_audio_data_Inr)
  then show ?thesis
    by (simp add: append_data_def set_data_def)
qed

theorem append_and_set_data_witness:
  "source_ok example_source \<and>
   int (length [9, 10 :: byte]) mod (sample_width example_source * channels example_source) = 0 \<and>
   (\<exists>s'. append_data example_source [9, 10] = Inr s' \<and>
         buffer s' = [1, 2, 3, 4, 5, 6, 7, 8, 9, 10] \<and> current_position_bytes s' = 2) \<and>
   (\<exists>s'. set_data example_source [9, 10] = Inr s' \<and>
         buffer s' = [9, 10] \<and> current_position_bytes s' = 0)"
proof -
  have ok: "source_ok example_source"
    by (simp add: source_ok_def example_source_def)
  have al: "int (length [9, 10 :: byte]) mod
      (sample_width example_source * channels example_source) = 0"
    by (simp add: example_source_def)
  show ?thesis
    using ok al append_and_set_data [OF ok al] by (auto simp add: example_source_def)
qed

subsection \<open>Positions\<close>

text \<open>
  Claim C3, as the code has it. \<open>set_position(p)\<close> with \<open>p\<close> greater than the number
  of samples in the buffer succeeds and puts the position at the end of the buffer, so
  that \<open>get_position()\<close> is then the total number of samples (a buffer of at most
  \<open>2 ^ 53\<close> bytes, so that the count is a float). With \<open>p < 0\<close> it raises
  \<open>ValueError\<close> with the message \<open>position must be >= 0\<close>, which is not an
  \<open>AudioParameterError\<close>, and the source with its position is as it was.
\<close>

theorem set_position_clamps:
  assumes ok: "source_ok s" and small: "int (length (buffer s)) \<le> 2 ^ 53"
  shows "(int (length (buffer s)) div sample_size_all_channels s < p \<longrightarrow>
            (\<exists>s'. set_position s p = (s', None) \<and>
                  current_position_bytes s' = int (length (buffer s)) \<and>
                  get_position s' =
                    Inr (of_int (int (length (buffer s)) div sample_size_all_channels s)))) \<and>
         (p < 0 \<longrightarrow>
            set_position s p = (s, Some (ValueError ''position must be >= 0'')) \<and>
            \<not> isinstance_AudioParameterError (ValueError ''position must be >= 0''))"
proof (intro conjI impI)
  let ?fs = "sample_size_all_channels s"
  let ?len = "int (length (buffer s))"
  assume big: "?len div ?fs < p"
  have fs: "0 < ?fs" and al: "?len mod ?fs = 0"
    using source_okD [OF ok] by simp_all
  from al have len: "?len = (?len div ?fs) * ?fs" by auto
  have n0: "0 \<le> ?len div ?fs" using fs by (simp add: pos_imp_zdiv_nonneg_iff)
  with big have p0: "\<not> p < 0" by simp
  have "(?len div ?fs) * ?fs \<le> p * ?fs"
    using big fs by (simp add: mult_right_mono)
  with len have ge: "\<not> p * ?fs < ?len" by simp
  have q: "(of_int ?len :: rat) / of_int ?fs = of_int (?len div ?fs)"
    using al fs by (simp add: of_int_div mod_eq_0_iff_dvd)
  have "(?len div ?fs) * 1 \<le> (?len div ?fs) * ?fs"
    using n0 fs by (intro mult_left_mono) simp_all
  then have "?len div ?fs \<le> ?len" using len by simp
  then have "?len div ?fs \<le> 2 ^ 53" using small by (rule order_trans)
  then have fr: "float_round (of_int (?len div ?fs)) = Finite (of_int (?len div ?fs))"
    using n0 by (intro float_round_int)
  have "int_truediv ?len ?fs = Inr (of_int (?len div ?fs))"
    using fs unfolding int_truediv_def q fr by simp
  then show "\<exists>s'. set_position s p = (s', None) \<and> current_position_bytes s' = ?len \<and>
      get_position s' = Inr (of_int (?len div ?fs))"
    using p0 ge by (simp add: set_position_def get_position_def Let_def)
next
  assume "p < 0"
  then show "set_position s p = (s, Some (ValueError ''position must be >= 0''))"
    by (simp add: set_position_def)
next
  show "\<not> isinstance_AudioParameterError (ValueError ''position must be >= 0'')"
    by simp
qed

theorem set_position_clamps_witness:
  "source_ok example_source \<and> int (length (buffer example_source)) \<le> 2 ^ 53 \<and>
   int (length (buffer example_source)) div sample_size_all_channels example_source < 7 \<and>
   (\<exists>s'. set_position example_source 7 = (s', None) \<and>
         current_position_bytes s' = 8 \<and> get_position s' = Inr 4) \<and>
   (- 1 :: int) < 0 \<and>
   set_position example_source (- 1) =
     (example_source, Some (ValueError ''position must be >= 0''))"
proof -
  have ok: "source_ok example_source"
    by (simp add: source_ok_def example_source_def)
  have small: "int (length (buffer example_source)) \<le> 2 ^ 53"
    by (simp add: example_source_def)
  have l: "int (length (buffer example_source)) = 8"
    "sample_size_all_channels example_source = 2"
    by (simp_all add: example_source_def)
  show ?thesis
    using ok small set_position_clamps [OF ok small, of 7]
      set_position_clamps [OF ok small, of "- 1"]
    unfolding l by simp
qed

text \<open>
  The claim as the specification words it, with a parameter error for \<open>p < 0\<close>, fails:
  the exception raised is the built-in \<open>ValueError\<close>, which a handler for
  \<open>AudioParameterError\<close> does not catch.
\<close>

theorem set_position_negative_is_value_error:
  "snd (set_position example_source (- 1)) = Some (ValueError ''position must be >= 0'') \<and>
   \<not> isinstance_AudioParameterError (ValueError ''position must be >= 0'') \<and>
   fst (set_position example_source (- 1)) = example_source"
  by (simp add: set_position_def)

text \<open>
  Claim C2, as the code has it. \<open>set_time_position(t)\<close> converts the time to a sample
  count with \<open>int(sampling_rate * t)\<close>: the product \<open>x\<close> is the floating-point one and
  \<open>int\<close> truncates it; \<open>set_position\<close> then stops at the end of the buffer. For a
  positive sampling rate, \<open>t \<ge> 0\<close> and a finite product (with a buffer of at most
  \<open>2 ^ 53\<close> bytes and \<open>frame_size * sampling_rate \<le> 2 ^ 53\<close>, so that the integers
  involved are floats), the position becomes sample \<open>min(floor(x), total_samples)\<close> and
  \<open>get_time_position()\<close> returns the float nearest to that sample count divided by the
  sampling rate.
\<close>

theorem time_position_roundtrip:
  assumes ok: "source_ok s" and sr: "0 < sampling_rate s" and t: "0 \<le> t"
    and small: "int (length (buffer s)) \<le> 2 ^ 53"
      "sample_size_all_channels s * sampling_rate s \<le> 2 ^ 53"
    and fin: "float_mul (of_int (sampling_rate s)) t = Finite x"
  shows "\<exists>s'. set_time_position s t = (s', None) \<and>
           current_position_bytes s' =
             min \<lfloor>x\<rfloor> (int (length (buffer s)) div sample_size_all_channels s) *
             sample_size_all_channels s \<and>
           get_time_position s' =
             Inr (float_round
                   (of_int (min \<lfloor>x\<rfloor> (int (length (buffer s)) div sample_size_all_channels s))
                    / of_int (sampling_rate s)))"
proof -
  let ?fs = "sample_size_all_channels s"
  let ?len = "int (length (buffer s))"
  let ?sr = "sampling_rate s"
  let ?p = "\<lfloor>x\<rfloor>"
  let ?n = "?len div ?fs"
  let ?m = "min ?p ?n"
  let ?s' = "s\<lparr>current_position_bytes := ?m * ?fs\<rparr>"
  have fs: "0 < ?fs" and al: "?len mod ?fs = 0"
    using source_okD [OF ok] by simp_all
  from al have len: "?len = ?n * ?fs" by auto
  have n0: "0 \<le> ?n" using fs by (simp add: pos_imp_zdiv_nonneg_iff)
  have "?sr * 1 \<le> ?sr * ?fs" using sr fs by (intro mult_left_mono) simp_all
  then have "?sr \<le> 2 ^ 53" using small(2) by (simp add: mult.commute)
  then have fsr: "float_of_int ?sr = Inr (of_int ?sr)"
    using sr by (intro float_of_int_exact) simp_all
  have "0 \<le> of_int ?sr * t" using sr t by simp
  then have x0: "0 \<le> x" using fin unfolding float_mul_def by (rule float_round_nonneg)
  then have pi: "int_of_float (Finite x) = Inr ?p"
    by (simp add: int_of_float_def py_int_def)
  have p0: "0 \<le> ?p" using x0 by simp
  have pos: "(if ?p * ?fs < ?len then ?p * ?fs else ?len) = ?m * ?fs"
  proof (cases "?p * ?fs < ?len")
    case True
    then have "?p * ?fs < ?n * ?fs" using len by simp
    then have "?p < ?n" using fs by (simp add: mult_less_cancel_right)
    then show ?thesis using True by simp
  next
    case False
    then have "?n * ?fs \<le> ?p * ?fs" using len by simp
    then have "?n \<le> ?p" using fs by (simp add: mult_le_cancel_right)
    then show ?thesis using False len by (simp add: min_def)
  qed
  have set: "set_time_position s t = (?s', None)"
    using p0 by (simp add: set_time_position_def fsr fin pi set_position_def Let_def pos)
  have m0: "0 \<le> ?m" using p0 n0 by simp
  have "?m * ?fs \<le> ?n * ?fs" using fs by (intro mult_right_mono) simp_all
  then have "?m * ?fs \<le> 2 ^ 53" using len small(1) by simp
  moreover have "0 \<le> ?m * ?fs" using m0 fs by simp
  ultimately have fa: "float_of_int (?m * ?fs) = Inr (of_int (?m * ?fs))"
    by (intro float_of_int_exact)
  have "0 \<le> ?fs * ?sr" using fs sr by simp
  then have fb: "float_of_int (?fs * ?sr) = Inr (of_int (?fs * ?sr))"
    using small(2) by (intro float_of_int_exact)
  have q: "(of_int (?m * ?fs) :: rat) / of_int (?fs * ?sr) = of_int ?m / of_int ?sr"
    using fs sr by simp
  have nz: "(of_int (?fs * ?sr) :: rat) \<noteq> 0" using fs sr by simp
  have get: "get_time_position ?s' = Inr (float_round (of_int ?m / of_int ?sr))"
    unfolding get_time_position_def using fa fb nz q
    by (simp add: float_truediv_def)
  show ?thesis using set get by (intro exI [of _ ?s']) simp
qed

theorem time_position_roundtrip_witness:
  "source_ok example_source \<and> 0 < sampling_rate example_source \<and> (0 :: rat) \<le> 7 / 16 \<and>
   float_mul (of_int (sampling_rate example_source)) (7 / 16) = Finite (7 / 4) \<and>
   (\<exists>s'. set_time_position example_source (7 / 16) = (s', None) \<and>
         current_position_bytes s' = 2 \<and>
         get_time_position s' = Inr (Finite (1 / 4))) \<and>
   float_mul (of_int (sampling_rate example_source)) 10 = Finite 40 \<and>
   (\<exists>s'. set_time_position example_source 10 = (s', None) \<and>
         current_position_bytes s' = 8 \<and>
         get_time_position s' = Inr (Finite 1))"
proof -
  have ok: "source_ok example_source" and sr: "0 < sampling_rate example_source"
    by (simp_all add: source_ok_def example_source_def)
  have small: "int (length (buffer example_source)) \<le> 2 ^ 53"
    "sample_size_all_channels example_source * sampling_rate example_source \<le> 2 ^ 53"
    by (simp_all add: example_source_def)
  have v: "sampling_rate example_source = 4" "sample_size_all_channels example_source = 2"
    "int (length (buffer example_source)) = 8"
    by (simp_all add: example_source_def)
  have fin1: "float_mul (of_int (sampling_rate example_source)) (7 / 16) = Finite (7 / 4)"
    unfolding v float_mul_def using float_round_7_4 by simp
  have "float_round (of_int 40) = Finite (of_int 40)" by (rule float_round_int) simp_all
  then have fin2: "float_mul (of_int (sampling_rate example_source)) 10 = Finite 40"
    unfolding v float_mul_def by simp
  have f1: "\<lfloor>7 / 4 :: rat\<rfloor> = 1" by (simp add: floor_eq_iff)
  have "float_round (of_int 1) = Finite (of_int 1)" by (rule float_round_int) simp_all
  then have r1: "float_round 1 = Finite 1" by simp
  have t0: "(0 :: rat) \<le> 7 / 16" "(0 :: rat) \<le> 10" by simp_all
  show ?thesis
    using ok sr fin1 fin2
      time_position_roundtrip [OF ok sr t0(1) small fin1]
      time_position_roundtrip [OF ok sr t0(2) small fin2]
    unfolding v f1 by (simp add: float_round_1_4 r1)
qed

text \<open>
  The claim as the specification words it, with \<open>round\<close> for \<open>int\<close>, fails: at a
  sampling rate of 4 the time \<open>7/16\<close> is 1.75 samples, which rounds to 2 and would read
  back as \<open>2/4\<close>; the code truncates to 1 sample and reads back \<open>1/4\<close>. All the values
  are doubles, so the floating-point operations are exact here.
\<close>

theorem time_position_not_rounded:
  "set_time_position example_source (7 / 16) =
     (example_source\<lparr>current_position_bytes := 2\<rparr>, None) \<and>
   get_time_position (example_source\<lparr>current_position_bytes := 2\<rparr>) = Inr (Finite (1 / 4)) \<and>
   of_int (round (of_int (sampling_rate example_source) * (7 / 16 :: rat)))
     / of_int (sampling_rate example_source) = (1 / 2 :: rat) \<and>
   Finite (1 / 4) \<noteq> Finite (1 / 2)"
proof -
  have r: "round (7 / 4 :: rat) = 2"
    by (simp add: round_def floor_eq_iff)
  have f: "py_int (7 / 4) = 1"
    by (simp add: py_int_def floor_eq_iff)
  have i4: "float_of_int 4 = Inr 4" "float_of_int 2 = Inr 2" "float_of_int 8 = Inr 8"
    using float_of_int_exact [of 4] float_of_int_exact [of 2] float_of_int_exact [of 8]
    by simp_all
  have m: "float_mul 4 (7 / 16) = Finite (7 / 4)"
    unfolding float_mul_def using float_round_7_4 by simp
  have set: "set_time_position example_source (7 / 16) =
     (example_source\<lparr>current_position_bytes := 2\<rparr>, None)"
    by (simp add: set_time_position_def example_source_def i4 m int_of_float_def f
        set_position_def)
  have get: "get_time_position (example_source\<lparr>current_position_bytes := 2\<rparr>) =
      Inr (Finite (1 / 4))"
    by (simp add: get_time_position_def example_source_def i4 float_truediv_def
        float_round_1_4)
  have rr: "of_int (round (of_int (sampling_rate example_source) * (7 / 16 :: rat)))
     / of_int (sampling_rate example_source) = (1 / 2 :: rat)"
    using r by (simp add: example_source_def)
  show ?thesis using set get rr by simp
qed

subsection \<open>Mixing two channels\<close>

lemma length_encode_unsigned: "length (encode_unsigned w v) = w"
  by (induction w arbitrary: v) simp_all

lemma uint_byte_of_int: "uint (word_of_int k :: byte) = k mod 256"
  by (simp add: uint_word_of_int)

lemma le_unsigned_encode: "le_unsigned (encode_unsigned w v) = v mod 2 ^ (8 * w)"
proof (induction w arbitrary: v)
  case 0
  show ?case by simp
next
  case (Suc w)
  have "v mod 2 ^ (8 * Suc w) = v mod (256 * 2 ^ (8 * w))"
    by (simp add: power_add)
  also have "\<dots> = 256 * (v div 256 mod 2 ^ (8 * w)) + v mod 256"
    by (rule zmod_zmult2_eq) simp
  finally show ?case using Suc by (simp add: uint_byte_of_int)
qed

lemma decode_encode_sample:
  assumes w: "0 < w" and lo: "- (2 ^ (8 * w - 1)) \<le> v" and hi: "v < 2 ^ (8 * w - 1)"
  shows "decode_sample (encode_sample w v) = v"
proof -
  let ?M = "2 ^ (8 * w) :: int"
  let ?H = "2 ^ (8 * w - 1) :: int"
  have M: "?M = 2 * ?H"
    using w by (metis One_nat_def Suc_pred mult_pos_pos power_Suc zero_less_numeral)
  have u: "le_unsigned (encode_sample w v) = v mod ?M"
    by (simp add: encode_sample_def le_unsigned_encode)
  have len: "length (encode_sample w v) = w"
    by (simp add: encode_sample_def length_encode_unsigned)
  show ?thesis
  proof (cases "0 \<le> v")
    case True
    then have "v mod ?M = v" using hi M by simp
    then show ?thesis using u len hi M by (simp add: decode_sample_def Let_def)
  next
    case False
    then have "v mod ?M = v + ?M"
      using lo M by (smt (verit) mod_add_self2 mod_pos_pos_trivial)
    then show ?thesis using u len lo False M by (simp add: decode_sample_def Let_def)
  qed
qed

lemma signed16_range:
  fixes a b :: int
  assumes "0 \<le> a" "a < 256" "0 \<le> b" "b < 256"
  shows "- 32768 \<le> (if 65536 \<le> 2 * (a + 256 * b) then a + 256 * b - 65536 else a + 256 * b)
       \<and> (if 65536 \<le> 2 * (a + 256 * b) then a + 256 * b - 65536 else a + 256 * b) \<le> 32767"
  using assms by auto

lemma decode_sample_two_range:
  "- 32768 \<le> decode_sample [x, y] \<and> decode_sample [x, y] \<le> 32767"
proof -
  have b: "0 \<le> uint x" "uint x < 256" "0 \<le> uint y" "uint y < 256"
    using uint_lt2p [of x] uint_lt2p [of y] by simp_all
  have "decode_sample [x, y] =
      (if 65536 \<le> 2 * (uint x + 256 * uint y) then uint x + 256 * uint y - 65536
       else uint x + 256 * uint y)"
    by (simp add: decode_sample_def Let_def)
  then show ?thesis using signed16_range [OF b] by simp
qed

lemma round_mean_two:
  "\<bar>2 * round_mean t 2 - t\<bar> \<le> 1 \<and> (odd t \<longrightarrow> even (round_mean t 2))"
proof -
  have "t mod 2 = 0 \<or> t mod 2 = 1" by presburger
  then show ?thesis
  proof
    assume z: "t mod 2 = 0"
    then have "2 * (t div 2) = t" by presburger
    with z show ?thesis by (simp add: round_mean_def Let_def; presburger)
  next
    assume o: "t mod 2 = 1"
    then have "2 * (t div 2) + 1 = t" by presburger
    with o show ?thesis by (simp add: round_mean_def Let_def; presburger)
  qed
qed

lemma concat_map_uniform:
  assumes "\<And>j. j < n \<Longrightarrow> length (f j) = w" and "k < n"
  shows "take w (drop (k * w) (concat (map f [0..<n]))) = f k"
  using assms
proof (induction n)
  case 0
  then show ?case by simp
next
  case (Suc n)
  have len: "length (concat (map f [0..<n])) = n * w"
    using Suc.prems(1) by (induction n) simp_all
  show ?case
  proof (cases "k < n")
    case True
    then have "take w (drop (k * w) (concat (map f [0..<n]))) = f k"
      using Suc by simp
    moreover have "k * w + w \<le> n * w"
      using True by (metis Suc_leI mult_Suc mult_le_mono1 add.commute)
    ultimately show ?thesis using len by simp
  next
    case False
    then have "k = n" using Suc.prems(2) by simp
    then show ?thesis using len Suc.prems(1) by simp
  qed
qed

lemma length_concat_map_uniform:
  "(\<And>j. j < n \<Longrightarrow> length (f j) = w) \<Longrightarrow> length (concat (map f [0..<n])) = n * w"
  by (induction n) simp_all

lemma take2_drop:
  assumes "i + 2 \<le> length xs"
  shows "take 2 (drop i xs) = [xs ! i, xs ! (i + 1)]"
proof -
  have "drop i xs = xs ! i # drop (Suc i) xs"
    using assms by (simp add: Cons_nth_drop_Suc)
  moreover have "drop (Suc i) xs = xs ! (Suc i) # drop (Suc (Suc i)) xs"
    using assms by (simp add: Cons_nth_drop_Suc)
  ultimately show ?thesis by (simp add: numeral_2_eq_2)
qed

lemma sample_of_frame:
  assumes "c < 2"
  shows "sample_at 2 (frame_at 4 buf k) c = take 2 (drop (4 * k + 2 * c) buf)"
proof -
  have "c = 0 \<or> c = 1" using assms by auto
  then show ?thesis
    by (auto simp add: sample_at_def frame_at_def drop_take add.commute mult.commute)
qed

lemma mix_frame_two:
  assumes k: "4 * k + 4 \<le> length buf"
  shows "mix_frame 2 2 (frame_at 4 buf k) =
         encode_sample 2
           (round_mean (decode_sample [buf ! (4 * k), buf ! (4 * k + 1)] +
                        decode_sample [buf ! (4 * k + 2), buf ! (4 * k + 3)]) 2)"
proof -
  have u: "[0..<2] = [0, Suc 0]" by (simp add: upt_rec)
  have s0: "sample_at 2 (frame_at 4 buf k) 0 = [buf ! (4 * k), buf ! (4 * k + 1)]"
    using k take2_drop [of "4 * k" buf] by (simp add: sample_of_frame)
  have s1: "sample_at 2 (frame_at 4 buf k) (Suc 0) = [buf ! (4 * k + 2), buf ! (4 * k + 3)]"
    using k take2_drop [of "4 * k + 2" buf] sample_of_frame [of 1 buf k]
    by (simp add: numeral_3_eq_3 add.commute)
  show ?thesis
    unfolding mix_frame_def u by (simp add: s0 s1)
qed

lemma length_mix_frame: "length (mix_frame sw ch frame) = sw"
  by (simp add: mix_frame_def encode_sample_def length_encode_unsigned)

lemma mix_example:
  "extract_selected_channel example_frames 2 2 Mix = Inr [150, 0, 0, 0] \<and>
   map decode_sample [[100, 0], [200, 0], [206, 255], [50, 0]] = [100, 200, - 50, 50] \<and>
   map decode_sample [[150, 0], [0, 0]] = [150, 0]"
  unfolding example_frames_def by code_simp

text \<open>
  Claim C1. For every buffer of whole 2-channel frames of 2-byte samples (its length a
  multiple of 4), channel extraction with \<open>mix\<close> succeeds; the output has
  \<open>len(buffer) / channels\<close> bytes; and its \<open>k\<close>-th sample \<open>m\<close>, read as a signed
  little-endian integer, is a nearest integer to the mean of the two samples \<open>a\<close> and
  \<open>b\<close> of frame \<open>k\<close>, that is \<open>|2m - (a + b)| \<le> 1\<close>, the even one when the mean lies
  halfway. On the frames \<open>(100, 200)\<close> and \<open>(-50, 50)\<close> the output is the samples 150
  and 0.
\<close>

theorem mix_two_channels:
  assumes al: "length buf mod 4 = 0"
  shows "(\<exists>out. extract_selected_channel buf 2 2 Mix = Inr out \<and>
           length out = length buf div 2 \<and>
           (\<forall>k < length buf div 4.
              let a = decode_sample [buf ! (4 * k), buf ! (4 * k + 1)];
                  b = decode_sample [buf ! (4 * k + 2), buf ! (4 * k + 3)];
                  m = decode_sample [out ! (2 * k), out ! (2 * k + 1)]
              in \<bar>2 * m - (a + b)\<bar> \<le> 1 \<and> (odd (a + b) \<longrightarrow> even m))) \<and>
         extract_selected_channel example_frames 2 2 Mix = Inr [150, 0, 0, 0] \<and>
         map decode_sample [[100, 0], [200, 0], [206, 255], [50, 0]] = [100, 200, - 50, 50] \<and>
         map decode_sample [[150, 0], [0, 0]] = [150, 0]"
proof -
  let ?n = "length buf div 4"
  let ?f = "\<lambda>k. mix_frame 2 2 (frame_at 4 buf k)"
  let ?out = "concat (map ?f [0..<?n])"
  have len4: "length buf = 4 * ?n" using al by auto
  have "int (length buf) mod 4 = int (length buf mod 4)"
    by (simp add: zmod_int)
  then have ali: "int (length buf) mod 4 = 0" using al by simp
  have ex: "extract_selected_channel buf 2 2 Mix = Inr ?out"
    using ali by (simp add: extract_selected_channel_def Let_def)
  have lo: "length ?out = ?n * 2"
    by (rule length_concat_map_uniform) (simp add: length_mix_frame)
  then have lo2: "length ?out = length buf div 2" using len4 by simp
  have each: "\<bar>2 * decode_sample [?out ! (2 * k), ?out ! (2 * k + 1)] -
        (decode_sample [buf ! (4 * k), buf ! (4 * k + 1)] +
         decode_sample [buf ! (4 * k + 2), buf ! (4 * k + 3)])\<bar> \<le> 1 \<and>
      (odd (decode_sample [buf ! (4 * k), buf ! (4 * k + 1)] +
            decode_sample [buf ! (4 * k + 2), buf ! (4 * k + 3)]) \<longrightarrow>
       even (decode_sample [?out ! (2 * k), ?out ! (2 * k + 1)]))"
    if k: "k < ?n" for k
  proof -
    let ?a = "decode_sample [buf ! (4 * k), buf ! (4 * k + 1)]"
    let ?b = "decode_sample [buf ! (4 * k + 2), buf ! (4 * k + 3)]"
    let ?m = "round_mean (?a + ?b) 2"
    have kb: "4 * k + 4 \<le> length buf" using k len4 by simp
    have "take 2 (drop (k * 2) ?out) = ?f k"
      using k by (intro concat_map_uniform) (simp_all add: length_mix_frame)
    moreover have "2 * k + 2 \<le> length ?out" using k lo by simp
    ultimately have piece: "[?out ! (2 * k), ?out ! (2 * k + 1)] = ?f k"
      using take2_drop [of "2 * k" ?out] by (simp add: mult.commute)
    have rm: "\<bar>2 * ?m - (?a + ?b)\<bar> \<le> 1" "odd (?a + ?b) \<longrightarrow> even ?m"
      using round_mean_two [of "?a + ?b"] by simp_all
    have ra: "- 32768 \<le> ?a" "?a \<le> 32767" and rb: "- 32768 \<le> ?b" "?b \<le> 32767"
      using decode_sample_two_range by simp_all
    have range: "- 32768 \<le> ?m" "?m < 32768"
    proof -
      show "- 32768 \<le> ?m" using rm(1) ra rb by linarith
      show "?m < 32768"
      proof (rule ccontr)
        assume "\<not> ?m < 32768"
        then have m: "32768 \<le> ?m" by simp
        with rm(1) ra rb have "?a + ?b \<ge> 65535" by linarith
        with ra rb show False by linarith
      qed
    qed
    have "decode_sample (encode_sample 2 ?m) = ?m"
      using range by (intro decode_encode_sample) simp_all
    then have "decode_sample [?out ! (2 * k), ?out ! (2 * k + 1)] = ?m"
      unfolding piece mix_frame_two [OF kb] .
    then show ?thesis using rm by simp
  qed
  have "\<exists>out. extract_selected_channel buf 2 2 Mix = Inr out \<and>
           length out = length buf div 2 \<and>
           (\<forall>k < length buf div 4.
              let a = decode_sample [buf ! (4 * k), buf ! (4 * k + 1)];
                  b = decode_sample [buf ! (4 * k + 2), buf ! (4 * k + 3)];
                  m = decode_sample [out ! (2 * k), out ! (2 * k + 1)]
              in \<bar>2 * m - (a + b)\<bar> \<le> 1 \<and> (odd (a + b) \<longrightarrow> even m))"
    using ex lo2 each by (intro exI [of _ ?out]) (simp add: Let_def)
  then show ?thesis using mix_example by blast
qed

theorem mix_two_channels_witness:
  "length example_frames mod 4 = 0 \<and>
   (\<exists>out. extract_selected_channel example_frames 2 2 Mix = Inr out \<and>
          length out = 4 \<and>
          \<bar>2 * decode_sample [out ! 0, out ! 1] - (100 + 200)\<bar> \<le> 1 \<and>
          \<bar>2 * decode_sample [out ! 2, out ! 3] - (- 50 + 50)\<bar> \<le> 1)"
proof -
  have al: "length example_frames mod 4 = 0" by (simp add: example_frames_def)
  have d: "decode_sample [100, 0] = 100" "decode_sample [200, 0] = 200"
    "decode_sample [206, 255] = - 50" "decode_sample [50, 0] = 50"
    by (simp_all add: decode_sample_def)
  from mix_two_channels [OF al] obtain out where
    o: "extract_selected_channel example_frames 2 2 Mix = Inr out"
      "length out = length example_frames div 2"
    and each: "\<forall>k < length example_frames div 4.
              let a = decode_sample [example_frames ! (4 * k), example_frames ! (4 * k + 1)];
                  b = decode_sample [example_frames ! (4 * k + 2), example_frames ! (4 * k + 3)];
                  m = decode_sample [out ! (2 * k), out ! (2 * k + 1)]
              in \<bar>2 * m - (a + b)\<bar> \<le> 1 \<and> (odd (a + b) \<longrightarrow> even m)"
    by blast
  have "\<bar>2 * decode_sample [out ! 0, out ! 1] - (100 + 200)\<bar> \<le> 1"
    using each [rule_format, of 0] by (simp add: example_frames_def d Let_def)
  moreover have "\<bar>2 * decode_sample [out ! 2, out ! 3] - (- 50 + 50)\<bar> \<le> 1"
    using each [rule_format, of 1] by (simp add: example_frames_def d Let_def)
  ultimately show ?thesis using al o by (auto simp add: example_frames_def)
qed

subsection \<open>The parameter resolver\<close>

lemma resolve_error:
  "resolve d names = Inl e \<Longrightarrow> \<exists>m. e = AudioParameterError m"
  by (induction d names rule: resolve.induct) (auto simp add: Let_def split: if_splits sum.splits)

lemma get_audio_parameters_error:
  "get_audio_parameters d = Inl e \<Longrightarrow> \<exists>m. e = AudioParameterError m"
  by (auto simp add: get_audio_parameters_def normalize_use_channel_def Let_def
      split: sum.splits if_splits dest: resolve_error)

lemma resolve_missing:
  assumes "(long_name, short_name) \<in> set names"
    and "d long_name = None" and "d short_name = None"
  shows "\<exists>m. resolve d names = Inl (AudioParameterError m)"
  using assms
proof (induction d names rule: resolve.induct)
  case (1 param_dict)
  then show ?case by simp
next
  case (2 param_dict ln sn names)
  show ?case
  proof (cases "resolve param_dict ((ln, sn) # names)")
    case (Inl e)
    then show ?thesis using resolve_error by blast
  next
    case (Inr ps)
    then have ok: "\<not> (py_or (dict_get param_dict ln PyNone) (dict_get param_dict sn PyNone) = PyNone
        \<or> \<not> isinstance_int (py_or (dict_get param_dict ln PyNone) (dict_get param_dict sn PyNone)))"
      by (auto simp add: Let_def split: if_splits)
    then have "(long_name, short_name) \<noteq> (ln, sn)"
      using "2.prems" by (auto simp add: py_or_def dict_get_def)
    then have "(long_name, short_name) \<in> set names" using "2.prems" by auto
    then obtain m where "resolve param_dict names = Inl (AudioParameterError m)"
      using "2.IH" ok "2.prems" by (auto simp add: Let_def)
    then show ?thesis using Inr ok by (simp add: Let_def)
  qed
qed

lemma get_audio_parameters_missing:
  assumes "(d ''sampling_rate'' = None \<and> d ''sr'' = None) \<or>
           (d ''sample_width'' = None \<and> d ''sw'' = None) \<or>
           (d ''channels'' = None \<and> d ''ch'' = None)"
  shows "\<exists>m. get_audio_parameters d = Inl (AudioParameterError m)"
proof -
  let ?names = "[(''sampling_rate'', ''sr''), (''sample_width'', ''sw''), (''channels'', ''ch'')]"
  from assms obtain l s where "(l, s) \<in> set ?names" "d l = None" "d s = None"
    by auto
  then obtain m where "resolve d ?names = Inl (AudioParameterError m)"
    using resolve_missing by blast
  then show ?thesis by (simp add: get_audio_parameters_def)
qed

text \<open>
  What the resolver does hold to: a long name with a truthy value wins over the alias,
  and a parameter that resolves to \<open>None\<close> or to a value that is not an integer is
  rejected with a parameter error that names it.
\<close>

lemma long_name_truthy_wins:
  "d long_name = Some v \<Longrightarrow> truthy v \<Longrightarrow>
   py_or (dict_get d long_name PyNone) (dict_get d short_name PyNone) = v"
  by (simp add: py_or_def dict_get_def)

lemma resolve_rejects_first:
  assumes "py_or (dict_get d long_name PyNone) (dict_get d short_name PyNone) = v"
    and "v = PyNone \<or> \<not> isinstance_int v"
  shows "resolve d ((long_name, short_name) # names) =
         Inl (AudioParameterError (err_message long_name short_name v))"
  using assms by (auto simp add: Let_def)

text \<open>
  Claim C4 does not hold of the code. The resolver reads each parameter as
  \<open>param_dict.get(long_name) or param_dict.get(short_name)\<close>, so a long name whose value
  is falsy (0, \<open>None\<close>, \<open>False\<close>, the empty string) gives way to the alias: with
  \<open>sampling_rate=0\<close> and \<open>sr=16000\<close> both present, the sampling rate returned is 16000,
  the alias's value, not the long name's.
\<close>

theorem long_name_zero_falls_back_to_alias:
  "get_audio_parameters example_options = Inr [PyInt 16000, PyInt 2, PyInt 1, PyInt 0]"
  by (simp add: example_options_def get_audio_parameters_def py_or_def dict_get_def
      normalize_use_channel_def)

subsection \<open>Reading from standard input\<close>

text \<open>
  Claim C6 does not hold of the standard-input source. \<open>StdinAudioSource.read\<close>
  returns whatever the stream yields: with 2-byte samples and three bytes left before the
  end of the stream, \<open>read(2)\<close> asks for four bytes and returns the three, which is not a
  whole number of frames. (\<open>BufferAudioSource.read\<close> does return whole frames only:
  lemma \<open>read_frame_aligned\<close>.)
\<close>

theorem stdin_read_partial_frame:
  "(case StdinAudioSource_init 16000 2 1 of
      Inl e \<Rightarrow> None
    | Inr s \<Rightarrow> Some (StdinAudioSource_read (StdinAudioSource_open s) [1, 2, 3] 2)) =
   Some (Inr (Some [1, 2, 3], [])) \<and>
   int (length [1, 2, 3 :: byte]) mod (2 * 1) \<noteq> 0"
  by (simp add: StdinAudioSource_init_def AudioSource_init_def StdinAudioSource_open_def
      StdinAudioSource_read_def stdin_buffer_read_def)

subsection \<open>Saving and loading\<close>

lemma rfind_from_absent: "c \<notin> set p \<Longrightarrow> rfind_from p c i found = found"
  by (induction p arbitrary: i found) auto

lemma rfind_from_lower_bound:
  "- 1 \<le> found \<Longrightarrow> 0 \<le> i \<Longrightarrow> - 1 \<le> rfind_from p c i found"
  by (induction p arbitrary: i found) auto

lemma lower_char_dot: "lower_char c = CHR ''.'' \<Longrightarrow> c = CHR ''.''"
proof (rule ccontr)
  assume l: "lower_char c = CHR ''.''" and ne: "c \<noteq> CHR ''.''"
  let ?n = "of_char c :: nat"
  from l ne have r: "65 \<le> ?n" "?n \<le> 90" and e: "char_of (?n + 32) = CHR ''.''"
    by (auto simp add: lower_char_def Let_def split: if_splits)
  from e have "of_char (char_of (?n + 32) :: char) = (of_char (CHR ''.'') :: nat)" by simp
  then have "(?n + 32) mod 256 = 46" by (simp add: of_char_of)
  with r show False by simp
qed

text \<open>A file name without any dot has no extension, so its format is guessed as raw.\<close>

lemma guess_audio_format_no_dot:
  assumes "CHR ''.'' \<notin> set file"
  shows "guess_audio_format None file = None"
proof -
  have "CHR ''.'' \<notin> set (lower file)"
  proof
    assume "CHR ''.'' \<in> set (lower file)"
    then obtain c where c: "c \<in> set file" "lower_char c = CHR ''.''"
      by (auto simp add: lower_def)
    from c(2) have "c = CHR ''.''" by (rule lower_char_dot)
    with c(1) assms show False by simp
  qed
  then have "rfind (lower file) (CHR ''.'') = - 1"
    by (simp add: rfind_def rfind_from_absent)
  moreover have "- 1 \<le> rfind (lower file) (CHR ''/'')"
    unfolding rfind_def by (rule rfind_from_lower_bound) simp_all
  ultimately have "splitext (lower file) = (lower file, [])"
    by (simp add: splitext_def Let_def)
  then show ?thesis by (simp add: guess_audio_format_def)
qed

text \<open>
  Claim C8. When the format is neither absent nor \<open>raw\<close> and one of
  \<open>sampling_rate\<close>, \<open>sample_width\<close>, \<open>channels\<close> is in the options under neither its
  long name nor its alias, \<open>to_file\<close> fails with \<open>AudioParameterError\<close> and the file
  system is as it was before the call: no writer has run. This holds for the \<open>wav\<close>
  container as for every other format that is not raw.
\<close>

theorem to_file_missing_parameter:
  assumes fmt: "guess_audio_format audio_format file = Some f" and nonraw: "f \<noteq> ''raw''"
    and missing: "(kwargs ''sampling_rate'' = None \<and> kwargs ''sr'' = None) \<or>
                  (kwargs ''sample_width'' = None \<and> kwargs ''sw'' = None) \<or>
                  (kwargs ''channels'' = None \<and> kwargs ''ch'' = None)"
  shows "to_file ext fs data file audio_format kwargs =
         (fs, Inl (AudioParameterError ''All audio parameters are required to save formats ''))"
proof -
  obtain m where "get_audio_parameters kwargs = Inl (AudioParameterError m)"
    using get_audio_parameters_missing [OF missing] by blast
  then show ?thesis using fmt nonraw by (simp add: to_file_def)
qed

theorem to_file_missing_parameter_witness:
  "guess_audio_format None ''speech.ogg'' = Some ''ogg'' \<and> ''ogg'' \<noteq> ''raw'' \<and>
   example_partial_options ''channels'' = None \<and> example_partial_options ''ch'' = None \<and>
   to_file example_collaborators Map.empty [1, 2, 3, 4] ''speech.ogg'' None
     example_partial_options =
   (Map.empty, Inl (AudioParameterError ''All audio parameters are required to save formats ''))"
proof -
  have fmt: "guess_audio_format None ''speech.ogg'' = Some ''ogg''" by code_simp
  have nonraw: "''ogg'' \<noteq> ''raw''" by simp
  have no_ch: "example_partial_options ''channels'' = None"
    "example_partial_options ''ch'' = None"
    by (simp_all add: example_partial_options_def)
  then have missing:
    "(example_partial_options ''sampling_rate'' = None \<and>
      example_partial_options ''sr'' = None) \<or>
     (example_partial_options ''sample_width'' = None \<and>
      example_partial_options ''sw'' = None) \<or>
     (example_partial_options ''channels'' = None \<and>
      example_partial_options ''ch'' = None)"
    by simp
  show ?thesis
    using fmt nonraw no_ch
      to_file_missing_parameter [OF fmt nonraw missing, of example_collaborators
        Map.empty "[1, 2, 3, 4]"]
    by blast
qed

text \<open>
  Claim C7, as the code has it. Saving \<open>d\<close> with format \<open>None\<close> under a file name
  that has no extension stores exactly the bytes of \<open>d\<close>, for every \<open>d\<close>. Loading the
  file back through \<open>_load_raw\<close> with \<open>channels=1\<close> gives a source whose buffer is
  \<open>d\<close> when the sample width is 1, 2 or 4 and the length of \<open>d\<close> is a multiple of it:
  the constructor of \<open>BufferAudioSource\<close> checks both.
\<close>

theorem raw_save_load_roundtrip:
  assumes noext: "guess_audio_format None file = None"
    and sw: "sw \<in> {1, 2, 4}" and al: "int (length d) mod sw = 0"
  shows "to_file ext fs d file None kwargs = (fs(file \<mapsto> d), Inr ()) \<and>
         (\<exists>src. load_raw (fs(file \<mapsto> d)) file (Some sr) (Some sw) (Some 1) uc False =
                  Inr (BufferSource src) \<and>
                get_data_buffer src = d)"
proof -
  have save: "to_file ext fs d file None kwargs = (fs(file \<mapsto> d), Inr ())"
    using noext by (simp add: to_file_def save_raw_def)
  have "sw * 1 \<noteq> 0" using sw by auto
  then have "check_audio_data d sw 1 = Inr ()"
    using al by (simp add: check_audio_data_Inr)
  then have "\<exists>src. BufferAudioSource_init d sr sw 1 = Inr src \<and> buffer src = d"
    using sw by (auto simp add: BufferAudioSource_init_def AudioSource_init_def)
  then show ?thesis using save
    by (auto simp add: load_raw_def get_data_buffer_def)
qed

theorem raw_save_load_roundtrip_witness:
  "guess_audio_format None ''audio'' = None \<and> (2 :: int) \<in> {1, 2, 4} \<and>
   int (length [1, 2, 3, 4 :: byte]) mod 2 = 0 \<and>
   to_file example_collaborators Map.empty [1, 2, 3, 4] ''audio'' None Map.empty =
     ([''audio'' \<mapsto> [1, 2, 3, 4]], Inr ()) \<and>
   (\<exists>src. load_raw [''audio'' \<mapsto> [1, 2, 3, 4]] ''audio'' (Some 16000) (Some 2) (Some 1)
            (Channel 0) False = Inr (BufferSource src) \<and>
          get_data_buffer src = [1, 2, 3, 4])"
proof -
  have noext: "guess_audio_format None ''audio'' = None" by code_simp
  have sw: "(2 :: int) \<in> {1, 2, 4}" by simp
  have al: "int (length [1, 2, 3, 4 :: byte]) mod 2 = 0" by simp
  show ?thesis
    using noext raw_save_load_roundtrip [OF noext sw al, of example_collaborators Map.empty
        Map.empty 16000 "Channel 0"]
    by simp
qed

text \<open>
  Without that condition the claim fails: three bytes are saved as they are, and loading
  them back with a sample width of 2 raises \<open>AudioParameterError\<close>.
\<close>

theorem raw_reload_rejects_partial_frame:
  "guess_audio_format None ''audio'' = None \<and>
   to_file example_collaborators Map.empty [1, 2, 3] ''audio'' None Map.empty =
     ([''audio'' \<mapsto> [1, 2, 3]], Inr ()) \<and>
   load_raw [''audio'' \<mapsto> [1, 2, 3]] ''audio'' (Some 16000) (Some 2) (Some 1)
     (Channel 0) False =
     Inl (AudioParameterError
       ''The length of audio data must be an integer multiple of `sample_width * channels`'')"
proof -
  have noext: "guess_audio_format None ''audio'' = None" by code_simp
  show ?thesis
    using noext
    by (simp add: to_file_def save_raw_def load_raw_def BufferAudioSource_init_def
        AudioSource_init_def check_audio_data_def)
qed

end
